theory Spec2Isabelle
  imports Complex_Main "HOL-Library.Char_ord" "HOL-Library.List_Lexorder"
begin

section \<open>Python values\<close>

text \<open>
  Prerequisite formulas and special rules are stored as JSON and read back as Python
  values (\<^verbatim>\<open>dict[str, Any]\<close>); the services inspect them dynamically with
  \<^verbatim>\<open>.get\<close>, \<^verbatim>\<open>isinstance\<close> and truth tests. They are modelled as JSON values.
  A dict is an association list read with \<open>map_of\<close>; the keys of a Python dict are
  distinct. JSON numbers are integers here (floats do not occur in course data), and
  strings are ASCII: a \<open>char\<close> is one character of the Python string.
\<close>

datatype json =
    JNull
  | JBool bool
  | JNum int
  | JStr string
  | JArr "json list"
  | JObj "(string \<times> json) list"

text \<open>
  The exceptions the services can raise. \<^verbatim>\<open>ValueError(f"Course '{code}' not found")\<close>
  and \<^verbatim>\<open>ValueError(f"Program '{code}' not found")\<close> keep the code they name;
  pydantic's \<^verbatim>\<open>ValidationError\<close> is a subclass of \<^verbatim>\<open>ValueError\<close>.
\<close>

datatype py_error =
    CourseNotFound json
  | ProgramNotFound string
  | ValidationError
  | AttributeError
  | TypeError

fun is_value_error :: "py_error \<Rightarrow> bool" where
  "is_value_error (CourseNotFound c) = True"
| "is_value_error (ProgramNotFound p) = True"
| "is_value_error ValidationError = True"
| "is_value_error AttributeError = False"
| "is_value_error TypeError = False"

subsection \<open>Strings\<close>

definition upper_char :: "char \<Rightarrow> char" where
  "upper_char c =
     (let n = (of_char c :: nat) in if 97 \<le> n \<and> n \<le> 122 then char_of (n - 32) else c)"

text \<open>\<^verbatim>\<open>str.upper()\<close>\<close>

definition upper :: "string \<Rightarrow> string" where
  "upper s = map upper_char s"

definition is_space :: "char \<Rightarrow> bool" where
  "is_space c = (let n = (of_char c :: nat) in (9 \<le> n \<and> n \<le> 13) \<or> (28 \<le> n \<and> n \<le> 32))"

text \<open>\<^verbatim>\<open>str.strip()\<close>\<close>

definition strip :: "string \<Rightarrow> string" where
  "strip s = rev (dropWhile is_space (rev (dropWhile is_space s)))"

definition is_digit_char :: "char \<Rightarrow> bool" where
  "is_digit_char c = (let n = (of_char c :: nat) in 48 \<le> n \<and> n \<le> 57)"

text \<open>\<^verbatim>\<open>str.isdigit()\<close>\<close>

definition isdigit :: "string \<Rightarrow> bool" where
  "isdigit s = (s \<noteq> [] \<and> list_all is_digit_char s)"

text \<open>\<^verbatim>\<open>int(s)\<close> on a string of decimal digits.\<close>

definition int_of_digits :: "string \<Rightarrow> int" where
  "int_of_digits s = foldl (\<lambda>acc c. 10 * acc + (int (of_char c) - 48)) 0 s"

text \<open>\<^verbatim>\<open>sep.join(parts)\<close>\<close>

fun join :: "string \<Rightarrow> string list \<Rightarrow> string" where
  "join sep [] = []"
| "join sep [x] = x"
| "join sep (x # y # ys) = x @ sep @ join sep (y # ys)"

text \<open>\<^verbatim>\<open>needle in haystack\<close> on strings.\<close>

fun is_substring :: "string \<Rightarrow> string \<Rightarrow> bool" where
  "is_substring needle [] = (needle = [])"
| "is_substring needle (c # cs) =
     (take (length needle) (c # cs) = needle \<or> is_substring needle cs)"

fun digits_of_nat :: "nat \<Rightarrow> string" where
  "digits_of_nat n =
     (if n < 10 then [char_of (48 + n)]
      else digits_of_nat (n div 10) @ [char_of (48 + n mod 10)])"

definition str_of_int :: "int \<Rightarrow> string" where
  "str_of_int i = (if i < 0 then CHR ''-'' # digits_of_nat (nat (- i)) else digits_of_nat (nat i))"

definition hex_digit :: "nat \<Rightarrow> char" where
  "hex_digit n = (if n < 10 then char_of (48 + n) else char_of (87 + n))"

definition repr_char :: "char \<Rightarrow> char \<Rightarrow> string" where
  "repr_char quote c =
     (let n = (of_char c :: nat) in
      if c = CHR 0x5C then [CHR 0x5C, CHR 0x5C]
      else if c = quote then [CHR 0x5C, quote]
      else if n = 9 then [CHR 0x5C, CHR ''t'']
      else if n = 10 then [CHR 0x5C, CHR ''n'']
      else if n = 13 then [CHR 0x5C, CHR ''r'']
      else if n < 32 \<or> n = 127 then [CHR 0x5C, CHR ''x'', hex_digit (n div 16), hex_digit (n mod 16)]
      else [c])"

text \<open>\<^verbatim>\<open>repr(s)\<close> of a string: double quotes only when it holds a single quote and no double one.\<close>

definition repr_str :: "string \<Rightarrow> string" where
  "repr_str s =
     (let quote = (if CHR 0x27 \<in> set s \<and> CHR 0x22 \<notin> set s then CHR 0x22 else CHR 0x27)
      in quote # concat (map (repr_char quote) s) @ [quote])"

fun py_repr :: "json \<Rightarrow> string" where
  "py_repr JNull = ''None''"
| "py_repr (JBool b) = (if b then ''True'' else ''False'')"
| "py_repr (JNum n) = str_of_int n"
| "py_repr (JStr s) = repr_str s"
| "py_repr (JArr xs) = ''['' @ join '', '' (map py_repr xs) @ '']''"
| "py_repr (JObj kvs) =
     ''{'' @ join '', '' (map (\<lambda>kv. repr_str (fst kv) @ '': '' @ py_repr (snd kv)) kvs) @ ''}''"

text \<open>\<^verbatim>\<open>str(v)\<close>, as an f-string formats \<^verbatim>\<open>{v}\<close>.\<close>

fun py_str :: "json \<Rightarrow> string" where
  "py_str (JStr s) = s"
| "py_str v = py_repr v"

subsection \<open>Dynamic operations\<close>

text \<open>The truth value of a Python object, as \<^verbatim>\<open>if not formula\<close> tests it.\<close>

fun truthy :: "json \<Rightarrow> bool" where
  "truthy JNull = False"
| "truthy (JBool b) = b"
| "truthy (JNum n) = (n \<noteq> 0)"
| "truthy (JStr s) = (s \<noteq> [])"
| "truthy (JArr xs) = (xs \<noteq> [])"
| "truthy (JObj kvs) = (kvs \<noteq> [])"

text \<open>\<^verbatim>\<open>d.get(k, default)\<close> on a dict.\<close>

definition dict_get :: "(string \<times> json) list \<Rightarrow> string \<Rightarrow> json \<Rightarrow> json" where
  "dict_get kvs k d = (case map_of kvs k of Some v \<Rightarrow> v | None \<Rightarrow> d)"

text \<open>\<^verbatim>\<open>v.upper()\<close>: only a string has the method.\<close>

fun py_upper :: "json \<Rightarrow> py_error + string" where
  "py_upper (JStr s) = Inr (upper s)"
| "py_upper v = Inl AttributeError"

text \<open>
  The items a \<^verbatim>\<open>for\<close> loop sees: the elements of a list, the characters of a string,
  the keys of a dict; nothing else is iterable.
\<close>

fun py_iter :: "json \<Rightarrow> py_error + json list" where
  "py_iter (JArr xs) = Inr xs"
| "py_iter (JStr s) = Inr (map (\<lambda>c. JStr [c]) s)"
| "py_iter (JObj kvs) = Inr (map (\<lambda>kv. JStr (fst kv)) kvs)"
| "py_iter v = Inl TypeError"

text \<open>Python compares and hashes \<^verbatim>\<open>True\<close> as 1 and \<^verbatim>\<open>False\<close> as 0.\<close>

fun hash_key :: "json \<Rightarrow> json" where
  "hash_key (JBool b) = JNum (if b then 1 else 0)"
| "hash_key v = v"

fun hashable :: "json \<Rightarrow> bool" where
  "hashable (JArr xs) = False"
| "hashable (JObj kvs) = False"
| "hashable v = True"

fun dedup :: "json list \<Rightarrow> json list" where
  "dedup [] = []"
| "dedup (x # xs) = x # filter (\<lambda>y. hash_key y \<noteq> hash_key x) (dedup xs)"

text \<open>
  \<^verbatim>\<open>list(set(codes))\<close>: building the set raises \<^verbatim>\<open>TypeError\<close> on an unhashable
  element (a list or a dict). CPython lists the set in hash order; the model lists it in
  the order of first occurrence.
\<close>

definition list_of_set :: "json list \<Rightarrow> py_error + json list" where
  "list_of_set codes = (if list_all hashable codes then Inr (dedup codes) else Inl TypeError)"

text \<open>\<^verbatim>\<open>needle in d\<close> for a string needle: substring, element or key test.\<close>

fun py_contains :: "string \<Rightarrow> json \<Rightarrow> py_error + bool" where
  "py_contains needle (JStr s) = Inr (is_substring needle s)"
| "py_contains needle (JArr xs) = Inr (JStr needle \<in> set xs)"
| "py_contains needle (JObj kvs) = Inr (needle \<in> set (map fst kvs))"
| "py_contains needle v = Inl TypeError"

subsection \<open>A measure for recursion through formulas\<close>

fun jsize :: "json \<Rightarrow> nat" where
  "jsize JNull = 0"
| "jsize (JBool b) = 0"
| "jsize (JNum n) = 0"
| "jsize (JStr s) = length s"
| "jsize (JArr xs) = Suc (sum_list (map (\<lambda>x. Suc (jsize x)) xs))"
| "jsize (JObj kvs) = Suc (sum_list (map (\<lambda>kv. Suc (jsize (snd kv))) kvs))"

fun node_size :: "json \<Rightarrow> nat" where
  "node_size (JObj kvs) = jsize (JObj kvs)"
| "node_size (JArr xs) = jsize (JArr xs)"
| "node_size v = 0"

definition nodes_size :: "json list \<Rightarrow> nat" where
  "nodes_size cs = sum_list (map (\<lambda>c. Suc (node_size c)) cs)"

lemma node_size_le: "node_size v \<le> jsize v"
  by (cases v) auto

lemma nodes_size_simps [simp]:
  "nodes_size [] = 0"
  "nodes_size (c # cs) = Suc (node_size c) + nodes_size cs"
  by (simp_all add: nodes_size_def)

lemma nodes_size_le: "nodes_size xs \<le> sum_list (map (\<lambda>x. Suc (jsize x)) xs)"
  by (induction xs) (auto simp: node_size_le add_mono)

lemma nodes_size_chars: "nodes_size (map (\<lambda>c. JStr [c]) s) = length s"
  by (induction s) auto

lemma nodes_size_keys: "nodes_size (map (\<lambda>kv. JStr (fst kv)) kvs) = length kvs"
  by (induction kvs) auto

lemma length_le_jsize: "length kvs \<le> sum_list (map (\<lambda>kv. Suc (jsize (snd kv))) kvs)"
  by (induction kvs) auto

lemma py_iter_size:
  assumes "py_iter v = Inr cs"
  shows "nodes_size cs \<le> jsize v"
proof (cases v)
  case (JArr xs)
  with assms show ?thesis using nodes_size_le [of xs] by simp
next
  case (JStr s)
  with assms show ?thesis using nodes_size_chars [of s] by auto
next
  case (JObj kvs)
  with assms show ?thesis using nodes_size_keys [of kvs] length_le_jsize [of kvs] by auto
qed (use assms in auto)

lemma map_of_jsize: "map_of kvs k = Some v \<Longrightarrow> jsize v < jsize (JObj kvs)"
  by (induction kvs) (auto split: if_splits)

lemma dict_get_jsize: "dict_get kvs k d = v \<Longrightarrow> v = d \<or> jsize v < jsize (JObj kvs)"
  by (auto simp: dict_get_def dest: map_of_jsize split: option.splits)

lemma conditions_smaller:
  assumes "py_iter (dict_get kvs k (JArr [])) = Inr cs"
  shows "nodes_size cs < node_size (JObj kvs)"
proof (cases "dict_get kvs k (JArr []) = JArr []")
  case True
  with assms show ?thesis by simp
next
  case False
  then have "jsize (dict_get kvs k (JArr [])) < jsize (JObj kvs)"
    using dict_get_jsize [of kvs k "JArr []"] by blast
  with py_iter_size [OF assms] show ?thesis by simp
qed

lemma nested_smaller:
  assumes "dict_get kvs k (JStr d) = JObj nested"
  shows "node_size (JObj nested) < node_size (JObj kvs)"
  using dict_get_jsize [OF assms] by auto

section \<open>Prerequisite service\<close>

subsection \<open>Formula evaluation\<close>

type_synonym eval_result = "bool \<times> string list \<times> string list"

text \<open>
  \<^verbatim>\<open>_evaluate_formula(formula, completed, db)\<close> returns
  \<^verbatim>\<open>(is_valid, missing_courses, satisfied_courses)\<close>; the database session is passed
  along and never used. The two \<^verbatim>\<open>for\<close> loops of the AND and OR branches are
  \<open>and_loop\<close> and \<open>or_loop\<close>, carrying the loop's local variables.
\<close>

function evaluate_formula :: "json \<Rightarrow> string set \<Rightarrow> py_error + eval_result"
  and and_loop ::
    "json list \<Rightarrow> string set \<Rightarrow> bool \<Rightarrow> string list \<Rightarrow> string list \<Rightarrow> py_error + eval_result"
  and or_loop :: "json list \<Rightarrow> string set \<Rightarrow> string list \<Rightarrow> py_error + eval_result"
where
  "evaluate_formula formula completed =
     (if \<not> truthy formula then Inr (True, [], [])
      else case formula of
        JObj kvs \<Rightarrow>
          (case py_upper (dict_get kvs ''type'' (JStr '''')) of
             Inl e \<Rightarrow> Inl e
           | Inr formula_type \<Rightarrow>
               if formula_type = ''COURSE'' then
                 (case dict_get kvs ''code'' (JStr '''') of
                    JObj nested \<Rightarrow> evaluate_formula (JObj nested) completed
                  | JStr course_code \<Rightarrow>
                      if upper course_code \<in> completed then Inr (True, [], [course_code])
                      else Inr (False, [course_code], [])
                  | _ \<Rightarrow> Inr (False, [], []))
               else if formula_type = ''AND'' then
                 (case py_iter (dict_get kvs ''conditions'' (JArr [])) of
                    Inl e \<Rightarrow> Inl e
                  | Inr conditions \<Rightarrow> and_loop conditions completed True [] [])
               else if formula_type = ''OR'' then
                 (case py_iter (dict_get kvs ''conditions'' (JArr [])) of
                    Inl e \<Rightarrow> Inl e
                  | Inr conditions \<Rightarrow> or_loop conditions completed [])
               else Inr (False, [], []))
      | _ \<Rightarrow> Inl AttributeError)"
| "and_loop [] completed is_valid all_missing all_satisfied =
     Inr (is_valid, all_missing, all_satisfied)"
| "and_loop (condition # rest) completed is_valid all_missing all_satisfied =
     (case evaluate_formula condition completed of
        Inl e \<Rightarrow> Inl e
      | Inr (valid, missing, satisfied) \<Rightarrow>
          and_loop rest completed (if \<not> valid then False else is_valid)
            (all_missing @ missing) (all_satisfied @ satisfied))"
| "or_loop [] completed all_missing = Inr (False, all_missing, [])"
| "or_loop (condition # rest) completed all_missing =
     (case evaluate_formula condition completed of
        Inl e \<Rightarrow> Inl e
      | Inr (valid, missing, satisfied) \<Rightarrow>
          if valid then Inr (True, [], satisfied)
          else or_loop rest completed (all_missing @ missing))"
  by pat_completeness auto

termination
proof (relation "measure (\<lambda>x. case x of
          Inl (f, c) \<Rightarrow> node_size f
        | Inr (Inl (cs, c)) \<Rightarrow> nodes_size cs
        | Inr (Inr (cs, c)) \<Rightarrow> nodes_size cs)", goal_cases)
  case 1
  show ?case by simp
next
  case (2 formula completed kvs ft nested)
  then show ?case using nested_smaller [of kvs "''code''" "''''" nested] by simp
next
  case (3 formula completed kvs ft conditions)
  then show ?case using conditions_smaller [of kvs "''conditions''" conditions] by simp
next
  case (4 formula completed kvs ft conditions)
  then show ?case using conditions_smaller [of kvs "''conditions''" conditions] by simp
qed auto

declare evaluate_formula.simps [simp del]

text \<open>\<^verbatim>\<open>validate_prerequisite_formula\<close>: the first component alone.\<close>

definition validate_prerequisite_formula :: "json \<Rightarrow> string set \<Rightarrow> py_error + bool" where
  "validate_prerequisite_formula formula completed =
     (case evaluate_formula formula completed of
        Inl e \<Rightarrow> Inl e
      | Inr (is_valid, missing, satisfied) \<Rightarrow> Inr is_valid)"

subsection \<open>Course codes of a formula\<close>

text \<open>
  \<^verbatim>\<open>_extract_course_codes\<close> has no truth test at its head, appends whatever truthy
  value the \<^verbatim>\<open>code\<close> field holds, and deduplicates through a set.
\<close>

function extract_course_codes :: "json \<Rightarrow> py_error + json list"
  and extract_loop :: "json list \<Rightarrow> json list \<Rightarrow> py_error + json list"
where
  "extract_course_codes formula =
     (case formula of
        JObj kvs \<Rightarrow>
          (case py_upper (dict_get kvs ''type'' (JStr '''')) of
             Inl e \<Rightarrow> Inl e
           | Inr formula_type \<Rightarrow>
               if formula_type = ''COURSE'' then
                 (let code = dict_get kvs ''code'' JNull
                  in list_of_set (if truthy code then [code] else []))
               else if formula_type \<in> set [''AND'', ''OR''] then
                 (case py_iter (dict_get kvs ''conditions'' (JArr [])) of
                    Inl e \<Rightarrow> Inl e
                  | Inr conditions \<Rightarrow>
                      (case extract_loop conditions [] of
                         Inl e \<Rightarrow> Inl e
                       | Inr codes \<Rightarrow> list_of_set codes))
               else list_of_set [])
      | _ \<Rightarrow> Inl AttributeError)"
| "extract_loop [] codes = Inr codes"
| "extract_loop (condition # rest) codes =
     (case extract_course_codes condition of
        Inl e \<Rightarrow> Inl e
      | Inr found \<Rightarrow> extract_loop rest (codes @ found))"
  by pat_completeness auto

termination
proof (relation "measure (\<lambda>x. case x of
          Inl f \<Rightarrow> node_size f
        | Inr (cs, acc) \<Rightarrow> nodes_size cs)", goal_cases)
  case 1
  show ?case by simp
next
  case (2 formula kvs ft conditions)
  then show ?case using conditions_smaller [of kvs "''conditions''" conditions] by simp
qed auto

declare extract_course_codes.simps [simp del]

subsection \<open>Formula descriptions\<close>

text \<open>
  \<^verbatim>\<open>f"({d})" if " OR " in d else d\<close> for each description, then \<^verbatim>\<open>sep.join\<close>, which
  accepts strings only. A description is whatever the \<^verbatim>\<open>code\<close> field of a leaf holds.
\<close>

fun wrap_description :: "string \<Rightarrow> json \<Rightarrow> py_error + json" where
  "wrap_description other d =
     (case py_contains other d of
        Inl e \<Rightarrow> Inl e
      | Inr inside \<Rightarrow> Inr (if inside then JStr (''('' @ py_str d @ '')'') else d))"

fun wrap_all :: "string \<Rightarrow> json list \<Rightarrow> py_error + json list" where
  "wrap_all other [] = Inr []"
| "wrap_all other (d # ds) =
     (case wrap_description other d of
        Inl e \<Rightarrow> Inl e
      | Inr w \<Rightarrow> (case wrap_all other ds of Inl e \<Rightarrow> Inl e | Inr ws \<Rightarrow> Inr (w # ws)))"

fun the_strings :: "json list \<Rightarrow> py_error + string list" where
  "the_strings [] = Inr []"
| "the_strings (JStr s # ds) =
     (case the_strings ds of Inl e \<Rightarrow> Inl e | Inr ss \<Rightarrow> Inr (s # ss))"
| "the_strings (d # ds) = Inl TypeError"

definition join_descriptions :: "string \<Rightarrow> string \<Rightarrow> json list \<Rightarrow> py_error + json" where
  "join_descriptions sep other descriptions =
     (case wrap_all other descriptions of
        Inl e \<Rightarrow> Inl e
      | Inr parts \<Rightarrow>
          (case the_strings parts of Inl e \<Rightarrow> Inl e | Inr ss \<Rightarrow> Inr (JStr (join sep ss))))"

function format_formula_description :: "json \<Rightarrow> py_error + json"
  and format_all :: "json list \<Rightarrow> py_error + json list"
where
  "format_formula_description formula =
     (case formula of
        JObj kvs \<Rightarrow>
          (case py_upper (dict_get kvs ''type'' (JStr '''')) of
             Inl e \<Rightarrow> Inl e
           | Inr formula_type \<Rightarrow>
               if formula_type = ''COURSE'' then Inr (dict_get kvs ''code'' (JStr ''Unknown course''))
               else if formula_type = ''AND'' then
                 (case py_iter (dict_get kvs ''conditions'' (JArr [])) of
                    Inl e \<Rightarrow> Inl e
                  | Inr conditions \<Rightarrow>
                      (case format_all conditions of
                         Inl e \<Rightarrow> Inl e
                       | Inr descriptions \<Rightarrow>
                           if length descriptions = 1 then Inr (hd descriptions)
                           else join_descriptions '' AND '' '' OR '' descriptions))
               else if formula_type = ''OR'' then
                 (case py_iter (dict_get kvs ''conditions'' (JArr [])) of
                    Inl e \<Rightarrow> Inl e
                  | Inr conditions \<Rightarrow>
                      (case format_all conditions of
                         Inl e \<Rightarrow> Inl e
                       | Inr descriptions \<Rightarrow>
                           if length descriptions = 1 then Inr (hd descriptions)
                           else join_descriptions '' OR '' '' AND '' descriptions))
               else Inr (JStr ''Unknown prerequisite formula''))
      | _ \<Rightarrow> Inl AttributeError)"
| "format_all [] = Inr []"
| "format_all (c # cs) =
     (case format_formula_description c of
        Inl e \<Rightarrow> Inl e
      | Inr d \<Rightarrow> (case format_all cs of Inl e \<Rightarrow> Inl e | Inr ds \<Rightarrow> Inr (d # ds)))"
  by pat_completeness auto

termination
proof (relation "measure (\<lambda>x. case x of
          Inl f \<Rightarrow> node_size f
        | Inr cs \<Rightarrow> nodes_size cs)", goal_cases)
  case 1
  show ?case by simp
next
  case (2 formula kvs ft conditions)
  then show ?case using conditions_smaller [of kvs "''conditions''" conditions] by simp
next
  case (3 formula kvs ft conditions)
  then show ?case using conditions_smaller [of kvs "''conditions''" conditions] by simp
qed auto

declare format_formula_description.simps [simp del]

section \<open>Stored data\<close>

text \<open>
  The rows of the \<^verbatim>\<open>courses\<close>, \<^verbatim>\<open>requirements\<close> and \<^verbatim>\<open>programs\<close> tables, as the
  ORM classes declare them. A nullable column is an \<open>option\<close>; the JSON columns hold
  a \<open>json\<close> value, \<open>JNull\<close> for \<^verbatim>\<open>None\<close>. Course and program codes are unique in
  their tables.
\<close>

record course =
  code :: string
  title :: string
  credits :: int
  level :: string
  subject :: string
  typically_offered :: "string list"
  prerequisite_formula :: json

record requirement =
  req_id :: string
  req_name :: string
  requirement_type :: string
  courses :: "string list"
  credits_needed :: "int option"
  choose_count :: "int option"
  level_filter :: "string list"
  subject_filter :: "string option"
  order_index :: int

record program =
  prog_code :: string
  prog_name :: string
  total_credits :: int
  program_requirements :: "requirement list"
  special_rules :: json

record database =
  db_courses :: "course list"
  db_programs :: "program list"

text \<open>\<^verbatim>\<open>select(Course).where(Course.code == course_code)\<close>, \<^verbatim>\<open>scalar_one_or_none()\<close>\<close>

definition find_course :: "database \<Rightarrow> json \<Rightarrow> course option" where
  "find_course db course_code = find (\<lambda>c. JStr (code c) = course_code) (db_courses db)"

text \<open>\<^verbatim>\<open>select(Program).where(Program.code == program_code)\<close>, with its requirements loaded.\<close>

definition find_program :: "database \<Rightarrow> string \<Rightarrow> program option" where
  "find_program db program_code = find (\<lambda>p. prog_code p = program_code) (db_programs db)"

text \<open>\<^verbatim>\<open>set(c.upper().strip() for c in completed_courses)\<close>\<close>

definition normalize_codes :: "string list \<Rightarrow> string set" where
  "normalize_codes cs = set (map (\<lambda>c. strip (upper c)) cs)"

subsection \<open>Checking the prerequisites of a course\<close>

record prerequisite_check_result =
  is_valid :: bool
  missing_courses :: "string list"
  satisfied_prerequisites :: "string list"
  formula_description :: "string option"

text \<open>
  The constructor of \<^verbatim>\<open>PrerequisiteCheckResult\<close> validates
  \<^verbatim>\<open>formula_description: Optional[str]\<close>.
\<close>

definition make_check_result ::
  "bool \<Rightarrow> string list \<Rightarrow> string list \<Rightarrow> json \<Rightarrow> py_error + prerequisite_check_result" where
  "make_check_result v missing satisfied description =
     (case description of
        JStr d \<Rightarrow> Inr \<lparr>is_valid = v, missing_courses = missing,
                       satisfied_prerequisites = satisfied, formula_description = Some d\<rparr>
      | JNull \<Rightarrow> Inr \<lparr>is_valid = v, missing_courses = missing,
                      satisfied_prerequisites = satisfied, formula_description = None\<rparr>
      | _ \<Rightarrow> Inl ValidationError)"

definition check_prerequisites ::
  "string \<Rightarrow> string list \<Rightarrow> database \<Rightarrow> py_error + prerequisite_check_result" where
  "check_prerequisites course_code completed_courses db =
     (case find_course db (JStr course_code) of
        None \<Rightarrow> Inl (CourseNotFound (JStr course_code))
      | Some course \<Rightarrow>
          if \<not> truthy (prerequisite_formula course) then
            make_check_result True [] [] (JStr ''No prerequisites required'')
          else
            (let completed_set = normalize_codes completed_courses in
             case evaluate_formula (prerequisite_formula course) completed_set of
               Inl e \<Rightarrow> Inl e
             | Inr (valid, missing, satisfied) \<Rightarrow>
                 (case format_formula_description (prerequisite_formula course) of
                    Inl e \<Rightarrow> Inl e
                  | Inr description \<Rightarrow>
                      make_check_result valid (sort missing) (sort satisfied) description)))"

subsection \<open>The prerequisite tree\<close>

datatype prerequisite_node =
  PrerequisiteNode
    (node_course_code: string)
    (node_title: string)
    (node_depth: int)
    (node_prerequisites: "prerequisite_node list")
    (node_formula: json)

text \<open>
  The constructor of \<^verbatim>\<open>PrerequisiteNode\<close> validates
  \<^verbatim>\<open>formula: Optional[dict[str, Any]]\<close>.
\<close>

definition make_node ::
  "string \<Rightarrow> string \<Rightarrow> int \<Rightarrow> prerequisite_node list \<Rightarrow> json \<Rightarrow> py_error + prerequisite_node" where
  "make_node c t d ps f =
     (case f of
        JNull \<Rightarrow> Inr (PrerequisiteNode c t d ps f)
      | JObj kvs \<Rightarrow> Inr (PrerequisiteNode c t d ps f)
      | _ \<Rightarrow> Inl ValidationError)"

text \<open>
  \<^verbatim>\<open>get_prerequisite_tree(course_code, db, depth, max_depth, visited)\<close>. The loop over
  the extracted codes is \<open>tree_loop\<close>; it receives the depth of the children and the
  visited set after \<^verbatim>\<open>visited.add(course_code)\<close>, of which each call gets its own copy.
  Its \<^verbatim>\<open>except ValueError: pass\<close> skips a child; any other exception leaves the loop.
\<close>

function get_prerequisite_tree ::
    "database \<Rightarrow> json \<Rightarrow> int \<Rightarrow> int \<Rightarrow> json set \<Rightarrow> py_error + prerequisite_node"
  and tree_loop ::
    "database \<Rightarrow> json list \<Rightarrow> int \<Rightarrow> int \<Rightarrow> json set \<Rightarrow> prerequisite_node list
       \<Rightarrow> py_error + prerequisite_node list"
where
  "get_prerequisite_tree db course_code depth max_depth visited =
     (if depth \<ge> max_depth \<or> course_code \<in> visited then
        (case find_course db course_code of
           Some row \<Rightarrow> make_node (code row) (title row) depth [] JNull
         | None \<Rightarrow> Inl (CourseNotFound course_code))
      else
        (let visited = insert course_code visited in
         case find_course db course_code of
           None \<Rightarrow> Inl (CourseNotFound course_code)
         | Some course \<Rightarrow>
             (case (if truthy (prerequisite_formula course) then
                      (case extract_course_codes (prerequisite_formula course) of
                         Inl e \<Rightarrow> Inl e
                       | Inr prerequisite_codes \<Rightarrow>
                           tree_loop db prerequisite_codes (depth + 1) max_depth visited [])
                    else Inr []) of
                Inl e \<Rightarrow> Inl e
              | Inr prerequisite_nodes \<Rightarrow>
                  make_node (code course) (title course) depth prerequisite_nodes
                    (prerequisite_formula course))))"
| "tree_loop db [] depth max_depth visited prerequisite_nodes = Inr prerequisite_nodes"
| "tree_loop db (prereq_code # rest) depth max_depth visited prerequisite_nodes =
     (case get_prerequisite_tree db prereq_code depth max_depth visited of
        Inr prereq_node \<Rightarrow>
          tree_loop db rest depth max_depth visited (prerequisite_nodes @ [prereq_node])
      | Inl e \<Rightarrow>
          if is_value_error e then tree_loop db rest depth max_depth visited prerequisite_nodes
          else Inl e)"
  by pat_completeness auto

termination
  by (relation "measures
        [\<lambda>x. case x of
            Inl (db, c, d, m, v) \<Rightarrow> 2 * nat (m - d) + 1
          | Inr (db, cs, d, m, v, ns) \<Rightarrow> 2 * nat (m - d) + 2,
         \<lambda>x. case x of
            Inl (db, c, d, m, v) \<Rightarrow> 0
          | Inr (db, cs, d, m, v, ns) \<Rightarrow> length cs]") auto

declare get_prerequisite_tree.simps [simp del]

text \<open>The call a client makes: \<^verbatim>\<open>depth = 0\<close>, \<^verbatim>\<open>visited = None\<close>.\<close>

definition prerequisite_tree :: "database \<Rightarrow> string \<Rightarrow> int \<Rightarrow> py_error + prerequisite_node" where
  "prerequisite_tree db course_code max_depth =
     get_prerequisite_tree db (JStr course_code) 0 max_depth {}"

section \<open>Requirement service\<close>

subsection \<open>Progress on one requirement\<close>

text \<open>
  \<^verbatim>\<open>progress_percentage\<close> is a Python float; it is modelled as a real number, so the
  quotients are exact.
\<close>

record requirement_progress =
  requirement_id :: string
  requirement_name :: string
  progress_type :: string
  required_count :: "int option"
  completed_count :: int
  is_satisfied :: bool
  completed_courses :: "string list"
  remaining_courses :: "string list"
  progress_percentage :: real

text \<open>\<^verbatim>\<open>if subject_filter\<close>: neither \<^verbatim>\<open>None\<close> nor the empty string.\<close>

definition filter_set :: "string option \<Rightarrow> bool" where
  "filter_set sfilter = (sfilter \<noteq> None \<and> sfilter \<noteq> Some [])"

text \<open>
  The two tests on level and subject that \<^verbatim>\<open>_validate_single_requirement\<close> and
  \<^verbatim>\<open>_course_satisfies_requirement\<close> both make, each clearing \<^verbatim>\<open>matches\<close>.
\<close>

definition matches_filters :: "course \<Rightarrow> string list \<Rightarrow> string option \<Rightarrow> bool" where
  "matches_filters c level_filters sfilter =
     (let matches = True;
          matches = (if level_filters \<noteq> [] \<and> level c \<notin> set level_filters then False else matches);
          matches = (if filter_set sfilter \<and> Some (subject c) \<noteq> sfilter
                     then False else matches)
      in matches)"

text \<open>
  The body of \<^verbatim>\<open>for code in completed_set\<close> in the LEVEL\_REQUIREMENT branch, on the
  pair \<^verbatim>\<open>(matching_credits, matching_courses)\<close>.
\<close>

definition level_step ::
  "(string \<rightharpoonup> course) \<Rightarrow> string list \<Rightarrow> string option \<Rightarrow> string \<Rightarrow> int \<times> string list
     \<Rightarrow> int \<times> string list" where
  "level_step completed_courses_map level_filters sfilter c acc =
     (case completed_courses_map c of
        None \<Rightarrow> acc
      | Some found \<Rightarrow>
          if matches_filters found level_filters sfilter
          then (fst acc + credits found, snd acc @ [code found])
          else acc)"

text \<open>
  A Python set is iterated in no particular order; the loop's results, a sum and a list
  that is sorted afterwards, do not depend on it. The model goes through the set in
  sorted order.
\<close>

definition validate_single_requirement ::
  "requirement \<Rightarrow> string set \<Rightarrow> (string \<rightharpoonup> course) \<Rightarrow> requirement_progress" where
  "validate_single_requirement req completed_set completed_courses_map =
     (let req_type = requirement_type req in
      if req_type = ''REQUIRED'' then
        (let required_courses = set (map upper (courses req));
             completed_in_req = required_courses \<inter> completed_set;
             remaining = required_courses - completed_set;
             n_required = int (card required_courses);
             n_completed = int (card completed_in_req);
             satisfied = (card remaining = 0);
             progress = (if n_required > 0
                         then real_of_int n_completed / real_of_int n_required * 100 else 100)
         in \<lparr>requirement_id = req_id req, requirement_name = req_name req,
              progress_type = req_type, required_count = Some n_required,
              completed_count = n_completed, is_satisfied = satisfied,
              completed_courses = sorted_list_of_set completed_in_req,
              remaining_courses = sorted_list_of_set remaining,
              progress_percentage = progress\<rparr>)
      else if req_type = ''CHOICE'' then
        (let choice_courses = set (map upper (courses req));
             completed_in_req = choice_courses \<inter> completed_set;
             remaining = choice_courses - completed_set;
             n_required = (case choose_count req of None \<Rightarrow> 1 | Some n \<Rightarrow> if n = 0 then 1 else n);
             n_completed = int (card completed_in_req);
             satisfied = (n_completed \<ge> n_required);
             progress = (if n_required > 0
                         then min (real_of_int n_completed / real_of_int n_required * 100) 100
                         else 100)
         in \<lparr>requirement_id = req_id req, requirement_name = req_name req,
              progress_type = req_type, required_count = Some n_required,
              completed_count = n_completed, is_satisfied = satisfied,
              completed_courses = sorted_list_of_set completed_in_req,
              remaining_courses = sorted_list_of_set remaining,
              progress_percentage = progress\<rparr>)
      else if req_type = ''LEVEL_REQUIREMENT'' then
        (let level_filters = level_filter req;
             sf = subject_filter req;
             needed = (case credits_needed req of None \<Rightarrow> 0 | Some n \<Rightarrow> n);
             found = fold (level_step completed_courses_map level_filters sf)
                       (sorted_list_of_set completed_set) (0, []);
             matching_credits = fst found;
             matching_courses = snd found;
             satisfied = (matching_credits \<ge> needed);
             progress = (if needed > 0
                         then min (real_of_int matching_credits / real_of_int needed * 100) 100
                         else 100)
         in \<lparr>requirement_id = req_id req, requirement_name = req_name req,
              progress_type = req_type, required_count = Some needed,
              completed_count = matching_credits, is_satisfied = satisfied,
              completed_courses = sort matching_courses,
              remaining_courses = [],
              progress_percentage = progress\<rparr>)
      else
        (let n_completed = int (card completed_set);
             satisfied = (n_completed > 0)
         in \<lparr>requirement_id = req_id req, requirement_name = req_name req,
              progress_type = req_type, required_count = None,
              completed_count = n_completed, is_satisfied = satisfied,
              completed_courses = sorted_list_of_set completed_set,
              remaining_courses = [],
              progress_percentage = (if satisfied then 100 else 0)\<rparr>))"

subsection \<open>Progress on a program\<close>

record requirement_validation_result =
  program_code :: string
  program_name :: string
  total_credits_required :: int
  total_credits_completed :: int
  requirements :: "requirement_progress list"
  overall_progress :: real
  is_complete :: bool

text \<open>
  The loop \<^verbatim>\<open>for req in program.program_requirements\<close> of
  \<^verbatim>\<open>validate_requirements\<close>, on \<^verbatim>\<open>(requirements_progress, satisfied_count)\<close>.
\<close>

fun requirements_loop ::
  "requirement list \<Rightarrow> string set \<Rightarrow> (string \<rightharpoonup> course) \<Rightarrow> requirement_progress list \<times> int
     \<Rightarrow> requirement_progress list \<times> int" where
  "requirements_loop [] completed_set completed_courses_map acc = acc"
| "requirements_loop (req # rest) completed_set completed_courses_map (requirements_progress, satisfied_count) =
     (let progress = validate_single_requirement req completed_set completed_courses_map
      in requirements_loop rest completed_set completed_courses_map
           (requirements_progress @ [progress],
            if is_satisfied progress then satisfied_count + 1 else satisfied_count))"

text \<open>
  \<^verbatim>\<open>{c.code: c for c in completed_course_objects}\<close>: a later row replaces an earlier
  one with the same key.
\<close>

definition courses_by_code :: "course list \<Rightarrow> (string \<rightharpoonup> course)" where
  "courses_by_code cs = map_of (rev (map (\<lambda>c. (code c, c)) cs))"

definition validate_requirements ::
  "string \<Rightarrow> string list \<Rightarrow> database \<Rightarrow> py_error + requirement_validation_result" where
  "validate_requirements pcode completed db =
     (case find_program db pcode of
        None \<Rightarrow> Inl (ProgramNotFound pcode)
      | Some program \<Rightarrow>
          (let completed_set = normalize_codes completed;
               completed_course_objects = filter (\<lambda>c. code c \<in> completed_set) (db_courses db);
               completed_courses_map = courses_by_code completed_course_objects;
               credits_completed = sum_list (map credits completed_course_objects);
               looped = requirements_loop (program_requirements program) completed_set
                          completed_courses_map ([], 0);
               requirements_progress = fst looped;
               satisfied_count = snd looped;
               total_requirements = int (length (program_requirements program));
               overall = (if total_requirements > 0
                          then real_of_int satisfied_count / real_of_int total_requirements * 100
                          else 0);
               complete = list_all is_satisfied requirements_progress
           in Inr \<lparr>program_code = prog_code program, program_name = prog_name program,
                   total_credits_required = total_credits program,
                   total_credits_completed = credits_completed,
                   requirements = requirements_progress,
                   overall_progress = overall,
                   is_complete = complete\<rparr>))"

subsection \<open>Which requirements a course would satisfy\<close>

definition course_satisfies_requirement :: "course \<Rightarrow> requirement \<Rightarrow> string set \<Rightarrow> bool" where
  "course_satisfies_requirement c req completed_set =
     (let req_type = requirement_type req in
      if req_type = ''REQUIRED'' then
        upper (code c) \<in> set (map upper (courses req)) \<and> upper (code c) \<notin> completed_set
      else if req_type = ''CHOICE'' then
        upper (code c) \<in> set (map upper (courses req)) \<and> upper (code c) \<notin> completed_set
      else if req_type = ''LEVEL_REQUIREMENT'' then
        matches_filters c (level_filter req) (subject_filter req) \<and> upper (code c) \<notin> completed_set
      else if req_type = ''ELECTIVE'' then
        upper (code c) \<notin> completed_set
      else False)"

fun satisfiable_loop :: "requirement list \<Rightarrow> course \<Rightarrow> string set \<Rightarrow> string list \<Rightarrow> string list" where
  "satisfiable_loop [] c completed_set satisfiable = satisfiable"
| "satisfiable_loop (req # rest) c completed_set satisfiable =
     satisfiable_loop rest c completed_set
       (if course_satisfies_requirement c req completed_set then satisfiable @ [req_id req]
        else satisfiable)"

definition find_satisfiable_requirements ::
  "string \<Rightarrow> string \<Rightarrow> string list \<Rightarrow> database \<Rightarrow> py_error + string list" where
  "find_satisfiable_requirements pcode ccode completed db =
     (case find_program db pcode of
        None \<Rightarrow> Inl (ProgramNotFound pcode)
      | Some program \<Rightarrow>
          (case find_course db (JStr ccode) of
             None \<Rightarrow> Inl (CourseNotFound (JStr ccode))
           | Some c \<Rightarrow>
               Inr (satisfiable_loop (program_requirements program) c (normalize_codes completed) [])))"

subsection \<open>Courses to take next\<close>

record available_course =
  ac_course_code :: string
  ac_title :: string
  ac_credits :: int
  ac_level :: string
  prerequisites_met :: bool
  satisfies_requirements :: "string list"
  priority_score :: real
  ac_typically_offered :: "string list"

text \<open>
  The first loop of \<^verbatim>\<open>get_next_available_courses\<close>:
  \<^verbatim>\<open>all_requirement_courses.update(req.courses or [])\<close>.
\<close>

fun listed_loop :: "requirement list \<Rightarrow> string set \<Rightarrow> string set" where
  "listed_loop [] all_requirement_courses = all_requirement_courses"
| "listed_loop (req # rest) all_requirement_courses =
     listed_loop rest (all_requirement_courses \<union> set (courses req))"

text \<open>
  The second loop: for each LEVEL\_REQUIREMENT, the query on level and subject, each
  \<^verbatim>\<open>where\<close> clause added only when its filter is set.
\<close>

definition level_query :: "database \<Rightarrow> string list \<Rightarrow> string option \<Rightarrow> course list" where
  "level_query db level_filters sfilter =
     filter (\<lambda>c. (level_filters = [] \<or> level c \<in> set level_filters) \<and>
                 (\<not> filter_set sfilter \<or> Some (subject c) = sfilter)) (db_courses db)"

fun level_courses_loop :: "requirement list \<Rightarrow> database \<Rightarrow> string set \<Rightarrow> string set" where
  "level_courses_loop [] db all_requirement_courses = all_requirement_courses"
| "level_courses_loop (req # rest) db all_requirement_courses =
     level_courses_loop rest db
       (if requirement_type req = ''LEVEL_REQUIREMENT''
        then all_requirement_courses \<union> set (map code (level_query db (level_filter req) (subject_filter req)))
        else all_requirement_courses)"

text \<open>
  The loop over the requirements inside the candidate loop, on
  \<^verbatim>\<open>(satisfies, priority_score)\<close>.
\<close>

fun score_loop ::
  "requirement list \<Rightarrow> course \<Rightarrow> string set \<Rightarrow> string list \<times> real \<Rightarrow> string list \<times> real" where
  "score_loop [] c completed_set acc = acc"
| "score_loop (req # rest) c completed_set (satisfies, score) =
     score_loop rest c completed_set
       (if course_satisfies_requirement c req completed_set then
          (satisfies @ [req_id req],
           if requirement_type req = ''REQUIRED'' then score + 10
           else if requirement_type req = ''CHOICE'' then score + 5
           else score + 2)
        else (satisfies, score))"

text \<open>\<^verbatim>\<open>int(course.level) if course.level.isdigit() else 0\<close>\<close>

definition level_value :: "course \<Rightarrow> int" where
  "level_value c = (if isdigit (level c) then int_of_digits (level c) else 0)"

text \<open>
  The \<^verbatim>\<open>try\<close> block around \<^verbatim>\<open>check_prerequisites\<close>: \<^verbatim>\<open>except ValueError\<close> sets
  \<^verbatim>\<open>prerequisites_met = False\<close>, any other exception goes on to the caller.
\<close>

definition try_prerequisites :: "py_error + prerequisite_check_result \<Rightarrow> py_error + bool" where
  "try_prerequisites checked =
     (case checked of
        Inr prereq_result \<Rightarrow> Inr (is_valid prereq_result)
      | Inl e \<Rightarrow> if is_value_error e then Inr False else Inl e)"

text \<open>The body of \<^verbatim>\<open>for course in candidate_courses\<close>.\<close>

definition available_course_of ::
  "database \<Rightarrow> program \<Rightarrow> string list \<Rightarrow> string set \<Rightarrow> course \<Rightarrow> py_error + available_course" where
  "available_course_of db program completed completed_set c =
     (case try_prerequisites (check_prerequisites (code c) completed db) of
        Inl e \<Rightarrow> Inl e
      | Inr met \<Rightarrow>
          (let looped = score_loop (program_requirements program) c completed_set ([], 0);
               satisfies = fst looped;
               score = snd looped;
               score = (if met then score + 3 else score);
               score = score + real_of_int (600 - level_value c) / 100
           in Inr \<lparr>ac_course_code = code c, ac_title = title c, ac_credits = credits c,
                   ac_level = level c, prerequisites_met = met,
                   satisfies_requirements = satisfies, priority_score = score,
                   ac_typically_offered = typically_offered c\<rparr>))"

fun candidates_loop ::
  "course list \<Rightarrow> database \<Rightarrow> program \<Rightarrow> string list \<Rightarrow> string set \<Rightarrow> available_course list
     \<Rightarrow> py_error + available_course list" where
  "candidates_loop [] db program completed completed_set available = Inr available"
| "candidates_loop (c # rest) db program completed completed_set available =
     (case available_course_of db program completed completed_set c of
        Inl e \<Rightarrow> Inl e
      | Inr a \<Rightarrow> candidates_loop rest db program completed completed_set (available @ [a]))"

text \<open>
  \<^verbatim>\<open>available.sort(key=lambda x: x.priority_score, reverse=True)\<close>: a stable sort,
  descending; equal scores keep their order.
\<close>

definition sort_by_priority :: "available_course list \<Rightarrow> available_course list" where
  "sort_by_priority available = sort_key (\<lambda>x. - priority_score x) available"

definition get_next_available_courses ::
  "string \<Rightarrow> string list \<Rightarrow> database \<Rightarrow> py_error + available_course list" where
  "get_next_available_courses pcode completed db =
     (case find_program db pcode of
        None \<Rightarrow> Inl (ProgramNotFound pcode)
      | Some program \<Rightarrow>
          (let completed_set = normalize_codes completed;
               all_requirement_courses = listed_loop (program_requirements program) {};
               all_requirement_courses =
                 level_courses_loop (program_requirements program) db all_requirement_courses;
               candidate_codes = all_requirement_courses - completed_set
           in if candidate_codes = {} then Inr []
              else
                (let candidate_courses = filter (\<lambda>c. code c \<in> candidate_codes) (db_courses db)
                 in case candidates_loop candidate_courses db program completed completed_set [] of
                      Inl e \<Rightarrow> Inl e
                    | Inr available \<Rightarrow> Inr (sort_by_priority available))))"

subsection \<open>Special rules\<close>











section \<open>Notions used in the statements\<close>

text \<open>\<^verbatim>\<open>formula.get("type", "").upper()\<close> and the items of \<^verbatim>\<open>formula.get("conditions", [])\<close>.\<close>

definition node_tag :: "(string \<times> json) list \<Rightarrow> py_error + string" where
  "node_tag kvs = py_upper (dict_get kvs ''type'' (JStr ''''))"

definition node_conditions :: "(string \<times> json) list \<Rightarrow> py_error + json list" where
  "node_conditions kvs = py_iter (dict_get kvs ''conditions'' (JArr []))"

text \<open>A formula is satisfied when its evaluation returns and says so.\<close>

definition formula_satisfied :: "json \<Rightarrow> string set \<Rightarrow> bool" where
  "formula_satisfied f C =
     (case evaluate_formula f C of Inr (v, m, s) \<Rightarrow> v | Inl e \<Rightarrow> False)"

text \<open>
  The satisfaction rule as the specification words it: the formula is empty, or a COURSE
  leaf whose code, uppercased, is completed, or an AND node with every child satisfied,
  or an OR node with some child satisfied.
\<close>

definition claimed_satisfied :: "json \<Rightarrow> string set \<Rightarrow> bool" where
  "claimed_satisfied f C =
     (\<not> truthy f \<or>
      (case f of
         JObj kvs \<Rightarrow>
           (case node_tag kvs of
              Inl e \<Rightarrow> False
            | Inr t \<Rightarrow>
                (t = ''COURSE'' \<and>
                   (case dict_get kvs ''code'' (JStr '''') of
                      JStr c \<Rightarrow> upper c \<in> C
                    | _ \<Rightarrow> False)) \<or>
                (t = ''AND'' \<and>
                   (case node_conditions kvs of
                      Inl e \<Rightarrow> False
                    | Inr cs \<Rightarrow> list_all (\<lambda>c. formula_satisfied c C) cs)) \<or>
                (t = ''OR'' \<and>
                   (case node_conditions kvs of
                      Inl e \<Rightarrow> False
                    | Inr cs \<Rightarrow> list_ex (\<lambda>c. formula_satisfied c C) cs)))
       | _ \<Rightarrow> False))"

text \<open>A COURSE leaf whose code is itself a formula object, and that formula is satisfied.\<close>

definition nested_leaf_satisfied :: "json \<Rightarrow> string set \<Rightarrow> bool" where
  "nested_leaf_satisfied f C =
     (case f of
        JObj kvs \<Rightarrow>
          kvs \<noteq> [] \<and> node_tag kvs = Inr ''COURSE'' \<and>
          (case dict_get kvs ''code'' (JStr '''') of
             JObj nested \<Rightarrow> formula_satisfied (JObj nested) C
           | _ \<Rightarrow> False)
      | _ \<Rightarrow> False)"

text \<open>
  The shape of a formula in the interface: an object whose \<^verbatim>\<open>type\<close> is a string; a
  COURSE leaf carries a string code or a nested formula object, an AND or OR node a
  list of formulas.
\<close>

function formula_json :: "json \<Rightarrow> bool"
  and all_formula_json :: "json list \<Rightarrow> bool"
where
  "formula_json f =
     (case f of
        JObj kvs \<Rightarrow>
          (case node_tag kvs of
             Inl e \<Rightarrow> False
           | Inr t \<Rightarrow>
               if t = ''COURSE'' then
                 (case dict_get kvs ''code'' (JStr '''') of
                    JObj nested \<Rightarrow> formula_json (JObj nested)
                  | JStr c \<Rightarrow> True
                  | _ \<Rightarrow> False)
               else if t = ''AND'' \<or> t = ''OR'' then
                 (case dict_get kvs ''conditions'' (JArr []) of
                    JArr cs \<Rightarrow> all_formula_json cs
                  | _ \<Rightarrow> False)
               else True)
      | _ \<Rightarrow> False)"
| "all_formula_json [] = True"
| "all_formula_json (c # cs) = (formula_json c \<and> all_formula_json cs)"
  by pat_completeness auto

termination
proof (relation "measure (\<lambda>x. case x of
          Inl f \<Rightarrow> node_size f
        | Inr cs \<Rightarrow> nodes_size cs)", goal_cases)
  case 1
  show ?case by simp
next
  case (2 f kvs t nested)
  then show ?case using nested_smaller [of kvs "''code''" "''''" nested] by simp
next
  case (3 f kvs t cs)
  then show ?case using conditions_smaller [of kvs "''conditions''" cs] by simp
qed auto

declare formula_json.simps [simp del]

text \<open>
  A tree respects the bound \<open>max_depth\<close> below the visited set of its root's call when
  no node lies deeper than the bound, a node at the bound or with a code already visited
  on its path is a leaf without formula, and every child respects the bound below the
  visited set extended by its parent's code.
\<close>

fun bounded_tree :: "int \<Rightarrow> json set \<Rightarrow> prerequisite_node \<Rightarrow> bool" where
  "bounded_tree max_depth visited (PrerequisiteNode c t d ps f) =
     (d \<le> max_depth \<and>
      ((d = max_depth \<or> JStr c \<in> visited) \<longrightarrow> ps = [] \<and> f = JNull) \<and>
      (\<forall>p \<in> set ps. bounded_tree max_depth (insert (JStr c) visited) p))"

text \<open>
  The priority score as the specification words it: 10 for each satisfied REQUIRED
  requirement, 5 for each satisfied CHOICE requirement, 2 for each other satisfied
  requirement (LEVEL\_REQUIREMENT or ELECTIVE), 3 if the prerequisites are met, and
  \<open>(600 - level) / 100\<close> for the course's numeric level, 0 for a level that is no
  number.
\<close>

definition satisfied_count :: "(string \<Rightarrow> bool) \<Rightarrow> requirement list \<Rightarrow> course \<Rightarrow> string set \<Rightarrow> nat" where
  "satisfied_count kind reqs c completed_set =
     length (filter (\<lambda>r. kind (requirement_type r) \<and> course_satisfies_requirement c r completed_set) reqs)"

definition claimed_priority_score :: "requirement list \<Rightarrow> course \<Rightarrow> string set \<Rightarrow> bool \<Rightarrow> real" where
  "claimed_priority_score reqs c completed_set met =
     10 * real (satisfied_count (\<lambda>t. t = ''REQUIRED'') reqs c completed_set) +
     5 * real (satisfied_count (\<lambda>t. t = ''CHOICE'') reqs c completed_set) +
     2 * real (satisfied_count (\<lambda>t. t = ''LEVEL_REQUIREMENT'' \<or> t = ''ELECTIVE'') reqs c completed_set) +
     (if met then 3 else 0) +
     real_of_int (600 - (if isdigit (level c) then int_of_digits (level c) else 0)) / 100"








section \<open>Formula evaluation: the loops\<close>

lemma and_loop_all:
  "map (\<lambda>c. evaluate_formula c C) cs = map Inr rs \<Longrightarrow>
   and_loop cs C b m0 s0 =
     Inr (b \<and> list_all fst rs, m0 @ concat (map (fst \<circ> snd) rs), s0 @ concat (map (snd \<circ> snd) rs))"
proof (induction cs arbitrary: rs b m0 s0)
  case Nil
  then show ?case by simp
next
  case (Cons c cs)
  then obtain r rs' where rs: "rs = r # rs'" and r: "evaluate_formula c C = Inr r"
    and rest: "map (\<lambda>c. evaluate_formula c C) cs = map Inr rs'"
    by (cases rs) auto
  obtain v m s where "r = (v, m, s)" by (cases r)
  with Cons.IH [OF rest] rs r show ?case by auto
qed

lemma and_loop_raises:
  "map (\<lambda>c. evaluate_formula c C) before = map Inr rs \<Longrightarrow> evaluate_formula c C = Inl e \<Longrightarrow>
   and_loop (before @ c # after) C b m0 s0 = Inl e"
proof (induction before arbitrary: rs b m0 s0)
  case Nil
  then show ?case by simp
next
  case (Cons x xs)
  then obtain r rs' where rs: "rs = r # rs'" and r: "evaluate_formula x C = Inr r"
    and rest: "map (\<lambda>c. evaluate_formula c C) xs = map Inr rs'"
    by (cases rs) auto
  obtain v m s where "r = (v, m, s)" by (cases r)
  with Cons.IH [OF rest Cons.prems(2)] r show ?case by simp
qed

lemma or_loop_none:
  "map (\<lambda>c. evaluate_formula c C) cs = map Inr rs \<Longrightarrow> list_all (\<lambda>r. \<not> fst r) rs \<Longrightarrow>
   or_loop cs C m0 = Inr (False, m0 @ concat (map (fst \<circ> snd) rs), [])"
proof (induction cs arbitrary: rs m0)
  case Nil
  then show ?case by simp
next
  case (Cons c cs)
  then obtain r rs' where rs: "rs = r # rs'" and r: "evaluate_formula c C = Inr r"
    and rest: "map (\<lambda>c. evaluate_formula c C) cs = map Inr rs'"
    by (cases rs) auto
  obtain v m s where "r = (v, m, s)" by (cases r)
  with Cons.IH [OF rest] Cons.prems(2) rs r show ?case by auto
qed

lemma or_loop_first:
  "list_all (\<lambda>b. \<exists>m s. evaluate_formula b C = Inr (False, m, s)) before \<Longrightarrow>
   evaluate_formula c C = Inr (True, m, s) \<Longrightarrow>
   or_loop (before @ c # after) C m0 = Inr (True, [], s)"
  by (induction before arbitrary: m0) auto

lemma formula_satisfied_Inr:
  "evaluate_formula c C = Inr (v, m, s) \<Longrightarrow> formula_satisfied c C = v"
  by (simp add: formula_satisfied_def)

lemma and_loop_valid:
  "and_loop cs C b m0 s0 = Inr (v, m, s) \<Longrightarrow> v = (b \<and> list_all (\<lambda>c. formula_satisfied c C) cs)"
proof (induction cs arbitrary: b m0 s0)
  case Nil
  then show ?case by simp
next
  case (Cons c cs)
  from Cons.prems obtain vc mc sc where c: "evaluate_formula c C = Inr (vc, mc, sc)"
    by (auto split: sum.splits)
  with Cons.prems have "and_loop cs C (if \<not> vc then False else b) (m0 @ mc) (s0 @ sc) = Inr (v, m, s)"
    by simp
  from Cons.IH [OF this] formula_satisfied_Inr [OF c] show ?case by auto
qed

lemma or_loop_valid:
  "or_loop cs C m0 = Inr (v, m, s) \<Longrightarrow> v = list_ex (\<lambda>c. formula_satisfied c C) cs"
proof (induction cs arbitrary: m0)
  case Nil
  then show ?case by simp
next
  case (Cons c cs)
  from Cons.prems obtain vc mc sc where c: "evaluate_formula c C = Inr (vc, mc, sc)"
    by (auto split: sum.splits)
  show ?case
  proof (cases vc)
    case True
    with Cons.prems c formula_satisfied_Inr [OF c] show ?thesis by simp
  next
    case False
    with Cons.prems c have "or_loop cs C (m0 @ mc) = Inr (v, m, s)" by simp
    from Cons.IH [OF this] False formula_satisfied_Inr [OF c] show ?thesis by simp
  qed
qed

lemma evaluate_formula_verdict:
  assumes "evaluate_formula f C = Inr (v, m, s)"
  shows "v \<longleftrightarrow> claimed_satisfied f C \<or> nested_leaf_satisfied f C"
proof (cases "truthy f")
  case False
  with assms show ?thesis
    by (simp add: evaluate_formula.simps claimed_satisfied_def)
next
  case True
  show ?thesis
  proof (cases f)
    case (JObj kvs)
    with True have ne: "kvs \<noteq> []" by simp
    note ev = assms [unfolded JObj evaluate_formula.simps [of "JObj kvs"]]
    show ?thesis
    proof (cases "node_tag kvs")
      case (Inl e)
      with ev ne show ?thesis by (simp add: node_tag_def)
    next
      case (Inr t)
      consider (course) "t = ''COURSE''" | (conj) "t = ''AND''" | (disj) "t = ''OR''"
        | (other) "t \<noteq> ''COURSE''" "t \<noteq> ''AND''" "t \<noteq> ''OR''" by blast
      then show ?thesis
      proof cases
        case course
        with ev JObj Inr ne show ?thesis
          by (cases "dict_get kvs ''code'' (JStr '''')")
             (auto simp: node_tag_def claimed_satisfied_def
                nested_leaf_satisfied_def formula_satisfied_def split: if_splits)
      next
        case conj
        with ev JObj Inr ne show ?thesis
          by (auto simp: node_tag_def node_conditions_def
                claimed_satisfied_def nested_leaf_satisfied_def
                dest: and_loop_valid split: sum.splits)
      next
        case disj
        with ev JObj Inr ne show ?thesis
          by (auto simp: node_tag_def node_conditions_def
                claimed_satisfied_def nested_leaf_satisfied_def
                dest: or_loop_valid split: sum.splits)
      next
        case other
        with ev JObj Inr ne show ?thesis
          by (auto simp: node_tag_def node_conditions_def
                claimed_satisfied_def nested_leaf_satisfied_def)
      qed
    qed
  qed (use assms True in \<open>auto simp: evaluate_formula.simps\<close>)
qed

lemma evaluate_unknown_tag:
  assumes "kvs \<noteq> []" "node_tag kvs = Inr t" "t \<noteq> ''COURSE''" "t \<noteq> ''AND''" "t \<noteq> ''OR''"
  shows "evaluate_formula (JObj kvs) C = Inr (False, [], [])"
  using assms by (simp add: evaluate_formula.simps [of "JObj kvs"] node_tag_def)

lemma formula_json_returns_aux:
  "(formula_json f \<longrightarrow> (\<exists>r. evaluate_formula f C = Inr r))"
  "(all_formula_json cs \<longrightarrow>
      (\<forall>b m s. \<exists>r. and_loop cs C b m s = Inr r) \<and> (\<forall>m. \<exists>r. or_loop cs C m = Inr r))"
proof (induction f and cs rule: formula_json_all_formula_json.induct)
  case (1 f)
  show ?case
  proof
    assume wf: "formula_json f"
    then obtain kvs where f: "f = JObj kvs"
      by (cases f) (auto simp: formula_json.simps)
    from wf f obtain t where t: "node_tag kvs = Inr t"
      by (cases "node_tag kvs") (auto simp: formula_json.simps)
    show "\<exists>r. evaluate_formula f C = Inr r"
    proof (cases "kvs = []")
      case True
      with f show ?thesis by (auto simp: evaluate_formula.simps)
    next
      case False
      consider (course) "t = ''COURSE''" | (node) "t \<noteq> ''COURSE''" "t = ''AND'' \<or> t = ''OR''"
        | (other) "t \<noteq> ''COURSE''" "t \<noteq> ''AND''" "t \<noteq> ''OR''" by blast
      then show ?thesis
      proof cases
        case course
        show ?thesis
        proof (cases "dict_get kvs ''code'' (JStr '''')")
          case (JObj nested)
          with wf f t course have "formula_json (JObj nested)"
            by (simp add: formula_json.simps [of "JObj kvs"])
          with "1.IH"(1) [OF f t course JObj] obtain v m s where "evaluate_formula (JObj nested) C = Inr (v, m, s)"
            by (metis prod_cases3)
          with f t course JObj False show ?thesis
            by (auto simp: evaluate_formula.simps [of "JObj kvs"] node_tag_def)
        qed (use wf f t course False in
              \<open>auto simp: formula_json.simps [of "JObj kvs"] evaluate_formula.simps [of "JObj kvs"]
                 node_tag_def\<close>)
      next
        case node
        from wf f t node obtain cs where cs: "dict_get kvs ''conditions'' (JArr []) = JArr cs"
          and all: "all_formula_json cs"
          by (cases "dict_get kvs ''conditions'' (JArr [])")
             (auto simp: formula_json.simps [of "JObj kvs"])
        from "1.IH"(2) [OF f t node(1) node(2) cs] all
        have loops: "(\<forall>b m s. \<exists>r. and_loop cs C b m s = Inr r) \<and> (\<forall>m. \<exists>r. or_loop cs C m = Inr r)"
          by blast
        from node(2) show ?thesis
        proof
          assume "t = ''AND''"
          with f t cs False loops show ?thesis
            by (auto simp: evaluate_formula.simps [of "JObj kvs"] node_tag_def)
        next
          assume "t = ''OR''"
          with f t cs False loops show ?thesis
            by (auto simp: evaluate_formula.simps [of "JObj kvs"] node_tag_def)
        qed
      next
        case other
        with f t False show ?thesis
          by (auto simp: evaluate_formula.simps [of "JObj kvs"] node_tag_def)
      qed
    qed
  qed
next
  case 2
  show ?case by auto
next
  case (3 c cs)
  show ?case
  proof
    assume "all_formula_json (c # cs)"
    then have c: "formula_json c" and cs: "all_formula_json cs" by simp_all
    from "3.IH"(1) c obtain v m s where r: "evaluate_formula c C = Inr (v, m, s)"
      by (metis prod_cases3)
    from "3.IH"(2) cs
    have loops: "(\<forall>b m s. \<exists>r. and_loop cs C b m s = Inr r) \<and> (\<forall>m. \<exists>r. or_loop cs C m = Inr r)"
      by blast
    with r show "(\<forall>b m s. \<exists>r. and_loop (c # cs) C b m s = Inr r) \<and> (\<forall>m. \<exists>r. or_loop (c # cs) C m = Inr r)"
      by auto
  qed
qed

section \<open>Claims about formula evaluation\<close>

text \<open>
  C1 (as amended). On every formula of the interface \<open>_evaluate_formula\<close> returns.
  Whenever it returns, it reports the formula satisfied exactly when the formula is
  empty or absent, or is a COURSE leaf whose string code, uppercased, is in the
  completed set, or is a COURSE leaf whose code is a nested formula object that is
  itself satisfied, or is an AND node all of whose children are satisfied, or is an OR
  node at least one of whose children is satisfied. A non-empty object whose type tag is
  any other string yields unsatisfied with empty missing and satisfied lists, without
  raising.
\<close>

theorem evaluate_formula_satisfaction:
  "(formula_json f \<longrightarrow> (\<exists>v m s. evaluate_formula f C = Inr (v, m, s))) \<and>
   (evaluate_formula f C = Inr (v, m, s) \<longrightarrow>
      (v \<longleftrightarrow> claimed_satisfied f C \<or> nested_leaf_satisfied f C)) \<and>
   (kvs \<noteq> [] \<and> node_tag kvs = Inr t \<and> t \<noteq> ''COURSE'' \<and> t \<noteq> ''AND'' \<and> t \<noteq> ''OR'' \<longrightarrow>
      evaluate_formula (JObj kvs) C = Inr (False, [], []))"
proof (intro conjI impI)
  assume "formula_json f"
  with formula_json_returns_aux(1) [of f C] show "\<exists>v m s. evaluate_formula f C = Inr (v, m, s)"
    by (metis prod_cases3)
next
  assume "evaluate_formula f C = Inr (v, m, s)"
  then show "v \<longleftrightarrow> claimed_satisfied f C \<or> nested_leaf_satisfied f C"
    by (rule evaluate_formula_verdict)
next
  assume "kvs \<noteq> [] \<and> node_tag kvs = Inr t \<and> t \<noteq> ''COURSE'' \<and> t \<noteq> ''AND'' \<and> t \<noteq> ''OR''"
  then show "evaluate_formula (JObj kvs) C = Inr (False, [], [])"
    using evaluate_unknown_tag [of kvs t C] by blast
qed

text \<open>
  The theorem at \<^verbatim>\<open>{"type": "or", "conditions": [{"type": "COURSE", "code": "math 100"},
  {"type": "COURSE", "code": {"type": "COURSE", "code": "cmput 174"}}]}\<close> with
  \<^verbatim>\<open>CMPUT 174\<close> completed, and at a node tagged \<^verbatim>\<open>XOR\<close>.
\<close>

theorem evaluate_formula_satisfaction_witness:
  "formula_json
     (JObj [(''type'', JStr ''or''),
            (''conditions'', JArr [
               JObj [(''type'', JStr ''COURSE''), (''code'', JStr ''math 100'')],
               JObj [(''type'', JStr ''COURSE''),
                     (''code'', JObj [(''type'', JStr ''COURSE''), (''code'', JStr ''cmput 174'')])]])]) \<and>
   evaluate_formula
     (JObj [(''type'', JStr ''or''),
            (''conditions'', JArr [
               JObj [(''type'', JStr ''COURSE''), (''code'', JStr ''math 100'')],
               JObj [(''type'', JStr ''COURSE''),
                     (''code'', JObj [(''type'', JStr ''COURSE''), (''code'', JStr ''cmput 174'')])]])])
     {''CMPUT 174''} = Inr (True, [], [''cmput 174'']) \<and>
   (claimed_satisfied
     (JObj [(''type'', JStr ''or''),
            (''conditions'', JArr [
               JObj [(''type'', JStr ''COURSE''), (''code'', JStr ''math 100'')],
               JObj [(''type'', JStr ''COURSE''),
                     (''code'', JObj [(''type'', JStr ''COURSE''), (''code'', JStr ''cmput 174'')])]])])
     {''CMPUT 174''} \<or>
    nested_leaf_satisfied
     (JObj [(''type'', JStr ''or''),
            (''conditions'', JArr [
               JObj [(''type'', JStr ''COURSE''), (''code'', JStr ''math 100'')],
               JObj [(''type'', JStr ''COURSE''),
                     (''code'', JObj [(''type'', JStr ''COURSE''), (''code'', JStr ''cmput 174'')])]])])
     {''CMPUT 174''}) \<and>
   evaluate_formula (JObj [(''type'', JStr ''xor''), (''conditions'', JArr [])]) {''CMPUT 174''}
     = Inr (False, [], [])"
proof -
  let ?f = "JObj [(''type'', JStr ''or''),
            (''conditions'', JArr [
               JObj [(''type'', JStr ''COURSE''), (''code'', JStr ''math 100'')],
               JObj [(''type'', JStr ''COURSE''),
                     (''code'', JObj [(''type'', JStr ''COURSE''), (''code'', JStr ''cmput 174'')])]])]"
  let ?k = "[(''type'', JStr ''xor''), (''conditions'', JArr [])]"
  have wf: "formula_json ?f" by code_simp
  have ev: "evaluate_formula ?f {''CMPUT 174''} = Inr (True, [], [''cmput 174''])" by code_simp
  have tag: "?k \<noteq> [] \<and> node_tag ?k = Inr ''XOR'' \<and> ''XOR'' \<noteq> ''COURSE'' \<and> ''XOR'' \<noteq> ''AND''
      \<and> ''XOR'' \<noteq> ''OR''" by code_simp
  from evaluate_formula_satisfaction
    [where f = ?f and C = "{''CMPUT 174''}" and v = True and m = "[]" and s = "[''cmput 174'']"
       and kvs = ?k and t = "''XOR''"] wf ev tag
  show ?thesis by blast
qed

text \<open>
  C1 as the specification states it fails on a COURSE leaf whose code is a nested
  formula: \<^verbatim>\<open>{"type": "COURSE", "code": {"type": "COURSE", "code": "CMPUT 174"}}\<close> is
  reported satisfied once \<^verbatim>\<open>CMPUT 174\<close> is completed, and is none of the four cases.
\<close>

theorem nested_leaf_counterexample:
  "evaluate_formula
     (JObj [(''type'', JStr ''COURSE''),
            (''code'', JObj [(''type'', JStr ''COURSE''), (''code'', JStr ''CMPUT 174'')])])
     {''CMPUT 174''} = Inr (True, [], [''CMPUT 174'']) \<and>
   \<not> claimed_satisfied
     (JObj [(''type'', JStr ''COURSE''),
            (''code'', JObj [(''type'', JStr ''COURSE''), (''code'', JStr ''CMPUT 174'')])])
     {''CMPUT 174''}"
  by code_simp

text \<open>
  C2. For an OR node, the children are evaluated in declaration order. At the first
  child that is satisfied, after children that returned unsatisfied, the result is
  \<open>(True, [], that child's satisfied list)\<close>, whatever the later siblings are and
  whatever the earlier ones were missing. If every child returns unsatisfied, the result
  is \<open>(False, the children's missing lists concatenated in order, [])\<close>.
\<close>

theorem or_returns_first_satisfied_branch:
  assumes "kvs \<noteq> []" and "node_tag kvs = Inr ''OR''" and "node_conditions kvs = Inr cs"
  shows "(cs = before @ c # after \<and>
          list_all (\<lambda>b. \<exists>m s. evaluate_formula b C = Inr (False, m, s)) before \<and>
          evaluate_formula c C = Inr (True, m, s) \<longrightarrow>
            evaluate_formula (JObj kvs) C = Inr (True, [], s)) \<and>
         (map (\<lambda>c. evaluate_formula c C) cs = map Inr rs \<and> list_all (\<lambda>r. \<not> fst r) rs \<longrightarrow>
            evaluate_formula (JObj kvs) C = Inr (False, concat (map (fst \<circ> snd) rs), []))"
proof -
  from assms have ev: "evaluate_formula (JObj kvs) C = or_loop cs C []"
    by (simp add: evaluate_formula.simps [of "JObj kvs"] node_tag_def node_conditions_def)
  show ?thesis
  proof (intro conjI impI)
    assume h: "cs = before @ c # after \<and>
      list_all (\<lambda>b. \<exists>m s. evaluate_formula b C = Inr (False, m, s)) before \<and>
      evaluate_formula c C = Inr (True, m, s)"
    then have "or_loop (before @ c # after) C [] = Inr (True, [], s)"
      by (intro or_loop_first) blast+
    with h ev show "evaluate_formula (JObj kvs) C = Inr (True, [], s)" by simp
  next
    assume h: "map (\<lambda>c. evaluate_formula c C) cs = map Inr rs \<and> list_all (\<lambda>r. \<not> fst r) rs"
    then have "or_loop cs C [] = Inr (False, [] @ concat (map (fst \<circ> snd) rs), [])"
      by (intro or_loop_none) blast+
    with ev show "evaluate_formula (JObj kvs) C = Inr (False, concat (map (fst \<circ> snd) rs), [])"
      by simp
  qed
qed

text \<open>
  The theorem at \<^verbatim>\<open>OR [COURSE "MATH 100", COURSE "CMPUT 174", 3]\<close> with only
  \<^verbatim>\<open>CMPUT 174\<close> completed (the third item would raise if it were evaluated), and at
  \<^verbatim>\<open>OR [COURSE "MATH 100", COURSE "MATH 101"]\<close> with nothing completed.
\<close>

theorem or_returns_first_satisfied_branch_witness:
  "evaluate_formula
     (JObj [(''type'', JStr ''OR''),
            (''conditions'', JArr [
               JObj [(''type'', JStr ''COURSE''), (''code'', JStr ''MATH 100'')],
               JObj [(''type'', JStr ''COURSE''), (''code'', JStr ''CMPUT 174'')],
               JNum 3])])
     {''CMPUT 174''} = Inr (True, [], [''CMPUT 174'']) \<and>
   evaluate_formula
     (JObj [(''type'', JStr ''OR''),
            (''conditions'', JArr [
               JObj [(''type'', JStr ''COURSE''), (''code'', JStr ''MATH 100'')],
               JObj [(''type'', JStr ''COURSE''), (''code'', JStr ''MATH 101'')]])])
     {} = Inr (False, [''MATH 100'', ''MATH 101''], [])"
proof -
  let ?a = "JObj [(''type'', JStr ''COURSE''), (''code'', JStr ''MATH 100'')]"
  let ?b = "JObj [(''type'', JStr ''COURSE''), (''code'', JStr ''CMPUT 174'')]"
  let ?d = "JObj [(''type'', JStr ''COURSE''), (''code'', JStr ''MATH 101'')]"
  let ?k1 = "[(''type'', JStr ''OR''), (''conditions'', JArr [?a, ?b, JNum 3])]"
  let ?k2 = "[(''type'', JStr ''OR''), (''conditions'', JArr [?a, ?d])]"
  have k1: "?k1 \<noteq> []" "node_tag ?k1 = Inr ''OR''" "node_conditions ?k1 = Inr [?a, ?b, JNum 3]"
    by code_simp+
  have a1: "evaluate_formula ?a {''CMPUT 174''} = Inr (False, [''MATH 100''], [])" by code_simp
  have b1: "evaluate_formula ?b {''CMPUT 174''} = Inr (True, [], [''CMPUT 174''])" by code_simp
  have first: "evaluate_formula (JObj ?k1) {''CMPUT 174''} = Inr (True, [], [''CMPUT 174''])"
    using or_returns_first_satisfied_branch
      [OF k1, where before = "[?a]" and c = ?b and after = "[JNum 3]" and C = "{''CMPUT 174''}"
         and m = "[]" and s = "[''CMPUT 174'']"] a1 b1
    by simp
  have k2: "?k2 \<noteq> []" "node_tag ?k2 = Inr ''OR''" "node_conditions ?k2 = Inr [?a, ?d]"
    by code_simp+
  have a2: "evaluate_formula ?a {} = Inr (False, [''MATH 100''], [])" by code_simp
  have d2: "evaluate_formula ?d {} = Inr (False, [''MATH 101''], [])" by code_simp
  have none: "evaluate_formula (JObj ?k2) {} = Inr (False, [''MATH 100'', ''MATH 101''], [])"
    using or_returns_first_satisfied_branch
      [OF k2, where C = "{}"
         and rs = "[(False, [''MATH 100''], []), (False, [''MATH 101''], [])]"] a2 d2
    by simp
  from first none show ?thesis by blast
qed

text \<open>
  C3. For an AND node whose children all return, every child is evaluated: the missing
  list is the concatenation of the children's missing lists in child order, the
  satisfied list the concatenation of their satisfied lists in child order, and the
  verdict the conjunction of the children's verdicts. No failure of an earlier child
  stops the loop: a child that raises is reached, and its exception raised, whatever
  the verdicts of the children before it.
\<close>

theorem and_collects_every_child:
  assumes "kvs \<noteq> []" and "node_tag kvs = Inr ''AND''" and "node_conditions kvs = Inr cs"
  shows "(map (\<lambda>c. evaluate_formula c C) cs = map Inr rs \<longrightarrow>
            evaluate_formula (JObj kvs) C =
              Inr (list_all fst rs, concat (map (fst \<circ> snd) rs), concat (map (snd \<circ> snd) rs))) \<and>
         (cs = before @ c # after \<and> map (\<lambda>c. evaluate_formula c C) before = map Inr rs' \<and>
          evaluate_formula c C = Inl e \<longrightarrow> evaluate_formula (JObj kvs) C = Inl e)"
proof -
  from assms have ev: "evaluate_formula (JObj kvs) C = and_loop cs C True [] []"
    by (simp add: evaluate_formula.simps [of "JObj kvs"] node_tag_def node_conditions_def)
  show ?thesis
  proof (intro conjI impI)
    assume "map (\<lambda>c. evaluate_formula c C) cs = map Inr rs"
    then have "and_loop cs C True [] [] =
        Inr (True \<and> list_all fst rs, [] @ concat (map (fst \<circ> snd) rs), [] @ concat (map (snd \<circ> snd) rs))"
      by (rule and_loop_all)
    with ev show "evaluate_formula (JObj kvs) C =
        Inr (list_all fst rs, concat (map (fst \<circ> snd) rs), concat (map (snd \<circ> snd) rs))"
      by simp
  next
    assume h: "cs = before @ c # after \<and> map (\<lambda>c. evaluate_formula c C) before = map Inr rs' \<and>
      evaluate_formula c C = Inl e"
    then have "and_loop (before @ c # after) C True [] [] = Inl e"
      by (intro and_loop_raises) blast+
    with h ev show "evaluate_formula (JObj kvs) C = Inl e" by simp
  qed
qed

text \<open>
  The theorem at \<^verbatim>\<open>AND [COURSE "MATH 100", COURSE "CMPUT 174", COURSE "MATH 101"]\<close>
  with only \<^verbatim>\<open>CMPUT 174\<close> completed, and at \<^verbatim>\<open>AND [COURSE "MATH 100", 3]\<close>.
\<close>

theorem and_collects_every_child_witness:
  "evaluate_formula
     (JObj [(''type'', JStr ''AND''),
            (''conditions'', JArr [
               JObj [(''type'', JStr ''COURSE''), (''code'', JStr ''MATH 100'')],
               JObj [(''type'', JStr ''COURSE''), (''code'', JStr ''CMPUT 174'')],
               JObj [(''type'', JStr ''COURSE''), (''code'', JStr ''MATH 101'')]])])
     {''CMPUT 174''} = Inr (False, [''MATH 100'', ''MATH 101''], [''CMPUT 174'']) \<and>
   evaluate_formula
     (JObj [(''type'', JStr ''AND''),
            (''conditions'', JArr [
               JObj [(''type'', JStr ''COURSE''), (''code'', JStr ''MATH 100'')],
               JNum 3])])
     {''CMPUT 174''} = Inl AttributeError"
proof -
  let ?a = "JObj [(''type'', JStr ''COURSE''), (''code'', JStr ''MATH 100'')]"
  let ?b = "JObj [(''type'', JStr ''COURSE''), (''code'', JStr ''CMPUT 174'')]"
  let ?d = "JObj [(''type'', JStr ''COURSE''), (''code'', JStr ''MATH 101'')]"
  let ?k1 = "[(''type'', JStr ''AND''), (''conditions'', JArr [?a, ?b, ?d])]"
  let ?k2 = "[(''type'', JStr ''AND''), (''conditions'', JArr [?a, JNum 3])]"
  have k1: "?k1 \<noteq> []" "node_tag ?k1 = Inr ''AND''" "node_conditions ?k1 = Inr [?a, ?b, ?d]"
    by code_simp+
  have a: "evaluate_formula ?a {''CMPUT 174''} = Inr (False, [''MATH 100''], [])" by code_simp
  have b: "evaluate_formula ?b {''CMPUT 174''} = Inr (True, [], [''CMPUT 174''])" by code_simp
  have d: "evaluate_formula ?d {''CMPUT 174''} = Inr (False, [''MATH 101''], [])" by code_simp
  have every: "evaluate_formula (JObj ?k1) {''CMPUT 174''}
      = Inr (False, [''MATH 100'', ''MATH 101''], [''CMPUT 174''])"
    using and_collects_every_child
      [OF k1, where C = "{''CMPUT 174''}" and rs =
         "[(False, [''MATH 100''], []), (True, [], [''CMPUT 174'']), (False, [''MATH 101''], [])]"]
      a b d
    by simp
  have k2: "?k2 \<noteq> []" "node_tag ?k2 = Inr ''AND''" "node_conditions ?k2 = Inr [?a, JNum 3]"
    by code_simp+
  have n: "evaluate_formula (JNum 3) {''CMPUT 174''} = Inl AttributeError" by code_simp
  have raised: "evaluate_formula (JObj ?k2) {''CMPUT 174''} = Inl AttributeError"
    using and_collects_every_child
      [OF k2, where C = "{''CMPUT 174''}" and before = "[?a]" and c = "JNum 3" and after = "[]"
         and rs' = "[(False, [''MATH 100''], [])]" and e = AttributeError]
      a n
    by simp
  from every raised show ?thesis by blast
qed

section \<open>Claims about requirement progress\<close>

lemma level_step_nonneg:
  assumes "\<forall>c \<in> ran m. 0 \<le> credits c" and "0 \<le> fst acc"
  shows "0 \<le> fst (level_step m lf sf x acc)"
  using assms by (auto simp: level_step_def ran_def split: option.splits)

lemma level_fold_nonneg:
  assumes "\<forall>c \<in> ran m. 0 \<le> credits c"
  shows "0 \<le> fst acc \<Longrightarrow> 0 \<le> fst (fold (level_step m lf sf) xs acc)"
proof (induction xs arbitrary: acc)
  case Nil
  then show ?case by simp
next
  case (Cons x xs)
  from level_step_nonneg [OF assms Cons.prems] Cons.IH show ?case by simp
qed

lemma ratio_bounds:
  fixes a b :: int
  assumes "0 \<le> a" and "a \<le> b" and "0 < b"
  shows "0 \<le> real_of_int a / real_of_int b * 100" and "real_of_int a / real_of_int b * 100 \<le> 100"
proof -
  from assms show "0 \<le> real_of_int a / real_of_int b * 100" by simp
  from assms have "real_of_int a / real_of_int b \<le> 1" by simp
  then have "real_of_int a / real_of_int b * 100 \<le> 1 * 100"
    by (intro mult_right_mono) simp_all
  then show "real_of_int a / real_of_int b * 100 \<le> 100" by simp
qed

lemma capped_bounds:
  fixes a b :: int
  assumes "0 \<le> a" and "0 < b"
  shows "0 \<le> min (real_of_int a / real_of_int b * 100) 100"
    and "min (real_of_int a / real_of_int b * 100) 100 \<le> 100"
  using assms by simp_all

text \<open>
  C7 (as amended). For every requirement, of any of the four kinds or of an unknown
  kind, and every completed set whose courses all carry non-negative credits, the
  \<open>progress_percentage\<close> that \<open>_validate_single_requirement\<close> returns lies in the
  closed interval from 0 to 100.
\<close>

theorem progress_percentage_bounds:
  assumes "\<forall>c \<in> ran completed_courses_map. 0 \<le> credits c"
  shows "0 \<le> progress_percentage (validate_single_requirement req completed_set completed_courses_map)
       \<and> progress_percentage (validate_single_requirement req completed_set completed_courses_map) \<le> 100"
proof -
  let ?R = "set (map upper (courses req))"
  have card_le: "int (card (?R \<inter> completed_set)) \<le> int (card ?R)"
    by (simp add: card_mono)
  have fold_nonneg: "0 \<le> fst (fold (level_step completed_courses_map (level_filter req) (subject_filter req))
      (sorted_list_of_set completed_set) (0, []))"
    by (rule level_fold_nonneg [OF assms]) simp
  consider (required) "requirement_type req = ''REQUIRED''"
    | (choice) "requirement_type req \<noteq> ''REQUIRED''" "requirement_type req = ''CHOICE''"
    | (level) "requirement_type req \<noteq> ''REQUIRED''" "requirement_type req \<noteq> ''CHOICE''"
        "requirement_type req = ''LEVEL_REQUIREMENT''"
    | (other) "requirement_type req \<noteq> ''REQUIRED''" "requirement_type req \<noteq> ''CHOICE''"
        "requirement_type req \<noteq> ''LEVEL_REQUIREMENT''"
    by blast
  then show ?thesis
  proof cases
    case required
    then have "progress_percentage (validate_single_requirement req completed_set completed_courses_map)
        = (if int (card ?R) > 0
           then real_of_int (int (card (?R \<inter> completed_set))) / real_of_int (int (card ?R)) * 100
           else 100)"
      by (simp add: validate_single_requirement_def Let_def)
    with ratio_bounds [OF _ card_le] show ?thesis by simp
  next
    case choice
    let ?n = "case choose_count req of None \<Rightarrow> 1 | Some n \<Rightarrow> if n = 0 then 1 else n"
    from choice have "progress_percentage (validate_single_requirement req completed_set completed_courses_map)
        = (if ?n > 0
           then min (real_of_int (int (card (?R \<inter> completed_set))) / real_of_int ?n * 100) 100
           else 100)"
      by (simp add: validate_single_requirement_def Let_def)
    with capped_bounds [of "int (card (?R \<inter> completed_set))" ?n] show ?thesis by simp
  next
    case level
    let ?n = "case credits_needed req of None \<Rightarrow> 0 | Some n \<Rightarrow> n"
    let ?c = "fst (fold (level_step completed_courses_map (level_filter req) (subject_filter req))
      (sorted_list_of_set completed_set) (0, []))"
    from level have "progress_percentage (validate_single_requirement req completed_set completed_courses_map)
        = (if ?n > 0 then min (real_of_int ?c / real_of_int ?n * 100) 100 else 100)"
      by (simp add: validate_single_requirement_def Let_def)
    with capped_bounds [OF fold_nonneg, of ?n] show ?thesis by simp
  next
    case other
    then show ?thesis by (simp add: validate_single_requirement_def Let_def)
  qed
qed

text \<open>
  The theorem at a LEVEL\_REQUIREMENT needing 18 credits at levels 300 and 400 in CMPUT,
  with one completed 3-credit course at level 300.
\<close>

theorem progress_percentage_bounds_witness:
  "0 \<le> progress_percentage (validate_single_requirement
        \<lparr>req_id = ''r1'', req_name = ''Senior'', requirement_type = ''LEVEL_REQUIREMENT'',
         courses = [], credits_needed = Some 18, choose_count = None,
         level_filter = [''300'', ''400''], subject_filter = Some ''CMPUT'', order_index = 0\<rparr>
        {''CMPUT 301''}
        [''CMPUT 301'' \<mapsto>
        \<lparr>code = ''CMPUT 301'', title = ''HCI'', credits = 3, level = ''300'', subject = ''CMPUT'',
         typically_offered = [], prerequisite_formula = JNull\<rparr>]) \<and>
   progress_percentage (validate_single_requirement
        \<lparr>req_id = ''r1'', req_name = ''Senior'', requirement_type = ''LEVEL_REQUIREMENT'',
         courses = [], credits_needed = Some 18, choose_count = None,
         level_filter = [''300'', ''400''], subject_filter = Some ''CMPUT'', order_index = 0\<rparr>
        {''CMPUT 301''}
        [''CMPUT 301'' \<mapsto>
        \<lparr>code = ''CMPUT 301'', title = ''HCI'', credits = 3, level = ''300'', subject = ''CMPUT'',
         typically_offered = [], prerequisite_formula = JNull\<rparr>]) \<le> 100"
proof -
  let ?c = "\<lparr>code = ''CMPUT 301'', title = ''HCI'', credits = 3, level = ''300'', subject = ''CMPUT'',
         typically_offered = [], prerequisite_formula = JNull\<rparr>"
  have h: "\<forall>c \<in> ran [''CMPUT 301'' \<mapsto> ?c]. 0 \<le> credits c" by simp
  from progress_percentage_bounds [OF h] show ?thesis by blast
qed

text \<open>
  C7 as the specification states it fails when a completed course carries negative
  credits, which the \<^verbatim>\<open>Integer\<close> column of the catalog admits: the LEVEL\_REQUIREMENT
  branch sums the credits and caps the ratio at 100 only. With 6 credits needed and
  one completed course of \<open>-3\<close> credits the progress is \<open>-50\<close>.
\<close>

theorem negative_credits_counterexample:
  "progress_percentage (validate_single_requirement
        \<lparr>req_id = ''r1'', req_name = ''Senior'', requirement_type = ''LEVEL_REQUIREMENT'',
         courses = [], credits_needed = Some 6, choose_count = None,
         level_filter = [], subject_filter = None, order_index = 0\<rparr>
        {''CMPUT 301''}
        [''CMPUT 301'' \<mapsto>
        \<lparr>code = ''CMPUT 301'', title = ''HCI'', credits = - 3, level = ''300'', subject = ''CMPUT'',
         typically_offered = [], prerequisite_formula = JNull\<rparr>]) = - 50 \<and>
   progress_percentage (validate_single_requirement
        \<lparr>req_id = ''r1'', req_name = ''Senior'', requirement_type = ''LEVEL_REQUIREMENT'',
         courses = [], credits_needed = Some 6, choose_count = None,
         level_filter = [], subject_filter = None, order_index = 0\<rparr>
        {''CMPUT 301''}
        [''CMPUT 301'' \<mapsto>
        \<lparr>code = ''CMPUT 301'', title = ''HCI'', credits = - 3, level = ''300'', subject = ''CMPUT'',
         typically_offered = [], prerequisite_formula = JNull\<rparr>]) < 0"
  by code_simp

text \<open>
  C10. For a program that exists and has no requirements, \<open>validate_requirements\<close>
  returns, for every list of completed courses, a result that is complete, with overall
  progress 0 and an empty list of requirements.
\<close>

theorem validate_requirements_empty_program:
  assumes "find_program db pcode = Some program" and "program_requirements program = []"
  shows "\<exists>r. validate_requirements pcode completed db = Inr r \<and> is_complete r \<and>
             overall_progress r = 0 \<and> requirements r = []"
  using assms by (simp add: validate_requirements_def Let_def)

text \<open>The theorem at a database holding one program without requirements.\<close>

theorem validate_requirements_empty_program_witness:
  "find_program
     \<lparr>db_courses = [],
      db_programs = [\<lparr>prog_code = ''honors-cs'', prog_name = ''Honors CS'', total_credits = 120,
                      program_requirements = [], special_rules = JNull\<rparr>]\<rparr>
     ''honors-cs''
     = Some \<lparr>prog_code = ''honors-cs'', prog_name = ''Honors CS'', total_credits = 120,
              program_requirements = [], special_rules = JNull\<rparr> \<and>
   (\<exists>r. validate_requirements ''honors-cs'' [''cmput 174'']
          \<lparr>db_courses = [],
           db_programs = [\<lparr>prog_code = ''honors-cs'', prog_name = ''Honors CS'', total_credits = 120,
                           program_requirements = [], special_rules = JNull\<rparr>]\<rparr> = Inr r \<and>
        is_complete r \<and> overall_progress r = 0 \<and> requirements r = [])"
proof -
  let ?p = "\<lparr>prog_code = ''honors-cs'', prog_name = ''Honors CS'', total_credits = 120,
              program_requirements = [], special_rules = JNull\<rparr>"
  let ?db = "\<lparr>db_courses = [], db_programs = [?p]\<rparr>"
  have f: "find_program ?db ''honors-cs'' = Some ?p" by (simp add: find_program_def)
  have e: "program_requirements ?p = []" by simp
  from f validate_requirements_empty_program [OF f e, of "[''cmput 174'']"] show ?thesis by blast
qed

section \<open>The prerequisite tree: bound and cut-off\<close>

lemma find_course_code: "find_course db c = Some row \<Longrightarrow> JStr (code row) = c"
  by (auto simp: find_course_def find_Some_iff)

lemma make_node_Inr: "make_node c t d ps f = Inr node \<Longrightarrow> node = PrerequisiteNode c t d ps f"
  by (auto simp: make_node_def split: json.splits)

lemma cutoff_leaf:
  assumes "find_course db c = Some row" and "m \<le> d \<or> c \<in> vis"
  shows "get_prerequisite_tree db c d m vis = Inr (PrerequisiteNode (code row) (title row) d [] JNull)"
  unfolding get_prerequisite_tree.simps [of db c d m vis] using assms by (simp add: make_node_def)

lemma tree_not_found:
  assumes "find_course db c = None"
  shows "get_prerequisite_tree db c d m vis = Inl (CourseNotFound c)"
  unfolding get_prerequisite_tree.simps [of db c d m vis] using assms by (simp add: Let_def)

lemma tree_inner:
  assumes "\<not> (m \<le> d \<or> c \<in> vis)" and ret: "get_prerequisite_tree db c d m vis = Inr node"
  shows "\<exists>course ns. find_course db c = Some course \<and>
           node = PrerequisiteNode (code course) (title course) d ns (prerequisite_formula course) \<and>
           (if truthy (prerequisite_formula course)
            then \<exists>codes. extract_course_codes (prerequisite_formula course) = Inr codes \<and>
                   tree_loop db codes (d + 1) m (insert c vis) [] = Inr ns
            else ns = [])"
proof -
  from assms(1) ret [unfolded get_prerequisite_tree.simps [of db c d m vis]]
  have unfolded: "(case find_course db c of
            None \<Rightarrow> Inl (CourseNotFound c)
          | Some course \<Rightarrow>
             (case (if truthy (prerequisite_formula course) then
                      (case extract_course_codes (prerequisite_formula course) of
                         Inl e \<Rightarrow> Inl e
                       | Inr prerequisite_codes \<Rightarrow>
                           tree_loop db prerequisite_codes (d + 1) m (insert c vis) [])
                    else Inr []) of
                Inl e \<Rightarrow> Inl e
              | Inr prerequisite_nodes \<Rightarrow>
                  make_node (code course) (title course) d prerequisite_nodes
                    (prerequisite_formula course))) = Inr node"
    by (simp add: Let_def)
  then obtain course where found: "find_course db c = Some course"
    by (cases "find_course db c") simp_all
  show ?thesis
  proof (cases "truthy (prerequisite_formula course)")
    case False
    with unfolded found
    have "make_node (code course) (title course) d [] (prerequisite_formula course) = Inr node"
      by simp
    with found False show ?thesis by (auto dest: make_node_Inr)
  next
    case True
    with unfolded found obtain codes where
      ex: "extract_course_codes (prerequisite_formula course) = Inr codes"
      by (cases "extract_course_codes (prerequisite_formula course)") simp_all
    with unfolded found True obtain ns where
      loop: "tree_loop db codes (d + 1) m (insert c vis) [] = Inr ns"
      by (cases "tree_loop db codes (d + 1) m (insert c vis) []") simp_all
    with unfolded found True ex
    have "make_node (code course) (title course) d ns (prerequisite_formula course) = Inr node"
      by simp
    with found True ex loop show ?thesis by (auto dest: make_node_Inr)
  qed
qed

lemma tree_bounded_aux:
  "d \<le> m \<longrightarrow> (\<forall>node. get_prerequisite_tree db c d m vis = Inr node \<longrightarrow> bounded_tree m vis node)"
  "d \<le> m \<longrightarrow> (\<forall>ns. tree_loop db cs d m vis acc = Inr ns \<longrightarrow>
      (\<forall>n \<in> set acc. bounded_tree m vis n) \<longrightarrow> (\<forall>n \<in> set ns. bounded_tree m vis n))"
proof (induction db c d m vis and db cs d m vis acc rule: get_prerequisite_tree_tree_loop.induct)
  case (1 db c d m vis)
  show ?case
  proof (intro impI allI)
    fix node
    assume le: "d \<le> m" and ret: "get_prerequisite_tree db c d m vis = Inr node"
    show "bounded_tree m vis node"
    proof (cases "m \<le> d \<or> c \<in> vis")
      case True
      show ?thesis
      proof (cases "find_course db c")
        case None
        from tree_not_found [OF None, of d m vis] ret show ?thesis by simp
      next
        case (Some row)
        from cutoff_leaf [OF Some True] ret
        have "node = PrerequisiteNode (code row) (title row) d [] JNull" by simp
        with le show ?thesis by simp
      qed
    next
      case False
      from tree_inner [OF False ret] obtain course ns
        where found: "find_course db c = Some course"
          and node: "node = PrerequisiteNode (code course) (title course) d ns (prerequisite_formula course)"
          and kids: "if truthy (prerequisite_formula course)
            then \<exists>codes. extract_course_codes (prerequisite_formula course) = Inr codes \<and>
                   tree_loop db codes (d + 1) m (insert c vis) [] = Inr ns
            else ns = []"
        by (elim exE conjE)
      from False le have lt: "d + 1 \<le> m" and fresh: "c \<notin> vis" and ne: "d \<noteq> m" by auto
      have same: "JStr (code course) = c" using found by (rule find_course_code)
      have below: "\<forall>n \<in> set ns. bounded_tree m (insert c vis) n"
      proof (cases "truthy (prerequisite_formula course)")
        case no_formula: False
        with kids show ?thesis by simp
      next
        case has_formula: True
        with kids obtain codes
          where ex: "extract_course_codes (prerequisite_formula course) = Inr codes"
            and loop: "tree_loop db codes (d + 1) m (insert c vis) [] = Inr ns"
          by auto
        have none: "\<forall>n \<in> set []. bounded_tree m (insert c vis) n" by simp
        from "1.IH" [OF False refl found has_formula ex, THEN mp, OF lt, THEN spec, THEN mp, OF loop,
          THEN mp, OF none]
        show ?thesis .
      qed
      have "bounded_tree m vis (PrerequisiteNode (code course) (title course) d ns (prerequisite_formula course))"
        unfolding bounded_tree.simps same using le ne fresh below by blast
      with node show ?thesis by simp
    qed
  qed
next
  case (2 db d m vis acc)
  show ?case by simp
next
  case (3 db c rest d m vis acc)
  show ?case
  proof (intro impI allI)
    fix ns
    assume le: "d \<le> m" and ret: "tree_loop db (c # rest) d m vis acc = Inr ns"
      and acc: "\<forall>n \<in> set acc. bounded_tree m vis n"
    show "\<forall>n \<in> set ns. bounded_tree m vis n"
    proof (cases "get_prerequisite_tree db c d m vis")
      case (Inl e)
      with ret have v: "is_value_error e" and rest: "tree_loop db rest d m vis acc = Inr ns"
        by (auto split: if_splits)
      from "3.IH"(2) [OF Inl v, THEN mp, OF le, THEN spec, THEN mp, OF rest, THEN mp, OF acc]
      show ?thesis .
    next
      case (Inr node)
      with ret have rest: "tree_loop db rest d m vis (acc @ [node]) = Inr ns" by simp
      from "3.IH"(1) [THEN mp, OF le, THEN spec, THEN mp, OF Inr]
      have "bounded_tree m vis node" .
      with acc have all: "\<forall>n \<in> set (acc @ [node]). bounded_tree m vis n" by simp
      from "3.IH"(3) [OF Inr, THEN mp, OF le, THEN spec, THEN mp, OF rest, THEN mp, OF all]
      show ?thesis .
    qed
  qed
qed

lemma check_prerequisites_not_found:
  assumes "find_course db (JStr c) = None"
  shows "check_prerequisites c completed db = Inl (CourseNotFound (JStr c))"
  using assms by (simp add: check_prerequisites_def)

lemma available_course_not_found:
  assumes "check_prerequisites (code cand) completed db = Inl (CourseNotFound x)"
  shows "\<exists>a. available_course_of db program completed cset cand = Inr a \<and> \<not> prerequisites_met a"
  using assms by (simp add: available_course_of_def try_prerequisites_def Let_def)

lemma tree_loop_skips:
  assumes "find_course db p = None"
  shows "tree_loop db (p # rest) d m visited nodes = tree_loop db rest d m visited nodes"
  using tree_not_found [OF assms, of d m visited] by simp

section \<open>Claims about the prerequisite tree and missing courses\<close>

text \<open>
  C4. The claim holds of the specification and fails on the code: on the COURSE leaf
  \<^verbatim>\<open>{"type": "COURSE", "code": {"type": "COURSE", "code": "CMPUT 174"}}\<close>, whose code
  is a nested formula object, \<open>_extract_course_codes\<close> appends the object to its list
  and raises \<^verbatim>\<open>TypeError\<close> when it builds the set, where \<open>_evaluate_formula\<close> recurses
  into the same leaf and returns. The exception is no \<^verbatim>\<open>ValueError\<close>, so it ends the
  whole tree of a course that carries such a formula.
\<close>

theorem extract_course_codes_nested_leaf_raises:
  "extract_course_codes
     (JObj [(''type'', JStr ''COURSE''),
            (''code'', JObj [(''type'', JStr ''COURSE''), (''code'', JStr ''CMPUT 174'')])])
     = Inl TypeError \<and>
   evaluate_formula
     (JObj [(''type'', JStr ''COURSE''),
            (''code'', JObj [(''type'', JStr ''COURSE''), (''code'', JStr ''CMPUT 174'')])])
     {} = Inr (False, [''CMPUT 174''], []) \<and>
   prerequisite_tree
     \<lparr>db_courses =
        [\<lparr>code = ''CMPUT 175'', title = ''Foundations II'', credits = 3, level = ''100'',
          subject = ''CMPUT'', typically_offered = [],
          prerequisite_formula =
            JObj [(''type'', JStr ''COURSE''),
                  (''code'', JObj [(''type'', JStr ''COURSE''), (''code'', JStr ''CMPUT 174'')])]\<rparr>],
      db_programs = []\<rparr>
     ''CMPUT 175'' 5 = Inl TypeError"
  by code_simp

text \<open>
  C5 (as amended). For every course code, catalog and bound \<open>max_depth\<close> that is not
  negative, every node of the tree that \<open>get_prerequisite_tree\<close> returns for a call at
  depth 0 with nothing visited has depth at most \<open>max_depth\<close>, and a node whose depth
  equals \<open>max_depth\<close>, or whose course code was already visited on its path, is a leaf
  with no children and no formula. At the cut-off the call returns that leaf whenever
  the course exists: reaching the bound or a visited course ends the traversal and does
  not fail it.
\<close>

theorem prerequisite_tree_bounded:
  assumes "0 \<le> max_depth"
  shows "(prerequisite_tree db start max_depth = Inr node \<longrightarrow> bounded_tree max_depth {} node) \<and>
         (find_course db c = Some row \<and> (max_depth \<le> d \<or> c \<in> visited) \<longrightarrow>
            get_prerequisite_tree db c d max_depth visited
              = Inr (PrerequisiteNode (code row) (title row) d [] JNull))"
proof (intro conjI impI)
  assume "prerequisite_tree db start max_depth = Inr node"
  then have "get_prerequisite_tree db (JStr start) 0 max_depth {} = Inr node"
    by (simp add: prerequisite_tree_def)
  from tree_bounded_aux(1) [THEN mp, OF assms, THEN spec, THEN mp, OF this]
  show "bounded_tree max_depth {} node" .
next
  assume "find_course db c = Some row \<and> (max_depth \<le> d \<or> c \<in> visited)"
  then show "get_prerequisite_tree db c d max_depth visited
      = Inr (PrerequisiteNode (code row) (title row) d [] JNull)"
    using cutoff_leaf [of db c row max_depth d visited] by blast
qed

text \<open>
  The theorem at a catalog of two courses that require each other, with bound 3: the
  second visit of \<^verbatim>\<open>CMPUT 174\<close> is a leaf at depth 2.
\<close>

theorem prerequisite_tree_bounded_witness:
  "(0::int) \<le> 3 \<and>
   prerequisite_tree
     \<lparr>db_courses =
        [\<lparr>code = ''CMPUT 174'', title = ''Foundations I'', credits = 3, level = ''100'',
          subject = ''CMPUT'', typically_offered = [],
          prerequisite_formula = JObj [(''type'', JStr ''COURSE''), (''code'', JStr ''CMPUT 175'')]\<rparr>,
         \<lparr>code = ''CMPUT 175'', title = ''Foundations II'', credits = 3, level = ''100'',
          subject = ''CMPUT'', typically_offered = [],
          prerequisite_formula = JObj [(''type'', JStr ''COURSE''), (''code'', JStr ''CMPUT 174'')]\<rparr>],
      db_programs = []\<rparr>
     ''CMPUT 174'' 3
     = Inr (PrerequisiteNode ''CMPUT 174'' ''Foundations I'' 0
         [PrerequisiteNode ''CMPUT 175'' ''Foundations II'' 1
            [PrerequisiteNode ''CMPUT 174'' ''Foundations I'' 2 [] JNull]
            (JObj [(''type'', JStr ''COURSE''), (''code'', JStr ''CMPUT 174'')])]
         (JObj [(''type'', JStr ''COURSE''), (''code'', JStr ''CMPUT 175'')])) \<and>
   bounded_tree 3 {}
     (PrerequisiteNode ''CMPUT 174'' ''Foundations I'' 0
         [PrerequisiteNode ''CMPUT 175'' ''Foundations II'' 1
            [PrerequisiteNode ''CMPUT 174'' ''Foundations I'' 2 [] JNull]
            (JObj [(''type'', JStr ''COURSE''), (''code'', JStr ''CMPUT 174'')])]
         (JObj [(''type'', JStr ''COURSE''), (''code'', JStr ''CMPUT 175'')])) \<and>
   get_prerequisite_tree
     \<lparr>db_courses =
        [\<lparr>code = ''CMPUT 174'', title = ''Foundations I'', credits = 3, level = ''100'',
          subject = ''CMPUT'', typically_offered = [],
          prerequisite_formula = JObj [(''type'', JStr ''COURSE''), (''code'', JStr ''CMPUT 175'')]\<rparr>,
         \<lparr>code = ''CMPUT 175'', title = ''Foundations II'', credits = 3, level = ''100'',
          subject = ''CMPUT'', typically_offered = [],
          prerequisite_formula = JObj [(''type'', JStr ''COURSE''), (''code'', JStr ''CMPUT 174'')]\<rparr>],
      db_programs = []\<rparr>
     (JStr ''CMPUT 174'') 2 3 {JStr ''CMPUT 174'', JStr ''CMPUT 175''}
     = Inr (PrerequisiteNode ''CMPUT 174'' ''Foundations I'' 2 [] JNull)"
proof -
  let ?a = "\<lparr>code = ''CMPUT 174'', title = ''Foundations I'', credits = 3, level = ''100'',
          subject = ''CMPUT'', typically_offered = [],
          prerequisite_formula = JObj [(''type'', JStr ''COURSE''), (''code'', JStr ''CMPUT 175'')]\<rparr>"
  let ?b = "\<lparr>code = ''CMPUT 175'', title = ''Foundations II'', credits = 3, level = ''100'',
          subject = ''CMPUT'', typically_offered = [],
          prerequisite_formula = JObj [(''type'', JStr ''COURSE''), (''code'', JStr ''CMPUT 174'')]\<rparr>"
  let ?db = "\<lparr>db_courses = [?a, ?b], db_programs = []\<rparr>"
  let ?tree = "PrerequisiteNode ''CMPUT 174'' ''Foundations I'' 0
         [PrerequisiteNode ''CMPUT 175'' ''Foundations II'' 1
            [PrerequisiteNode ''CMPUT 174'' ''Foundations I'' 2 [] JNull]
            (JObj [(''type'', JStr ''COURSE''), (''code'', JStr ''CMPUT 174'')])]
         (JObj [(''type'', JStr ''COURSE''), (''code'', JStr ''CMPUT 175'')])"
  have bound: "(0::int) \<le> 3" by simp
  have built: "prerequisite_tree ?db ''CMPUT 174'' 3 = Inr ?tree" by code_simp
  have found: "find_course ?db (JStr ''CMPUT 174'') = Some ?a" by code_simp
  have seen: "(3::int) \<le> 2 \<or> JStr ''CMPUT 174'' \<in> {JStr ''CMPUT 174'', JStr ''CMPUT 175''}" by simp
  have name: "code ?a = ''CMPUT 174''" "title ?a = ''Foundations I''" by simp_all
  from prerequisite_tree_bounded [OF bound, where db = ?db and start = "''CMPUT 174''" and node = ?tree
        and c = "JStr ''CMPUT 174''" and row = ?a and d = 2
        and visited = "{JStr ''CMPUT 174'', JStr ''CMPUT 175''}"]
      built found seen
  have "bounded_tree 3 {} ?tree \<and>
        get_prerequisite_tree ?db (JStr ''CMPUT 174'') 2 3 {JStr ''CMPUT 174'', JStr ''CMPUT 175''}
          = Inr (PrerequisiteNode (code ?a) (title ?a) 2 [] JNull)"
    by blast
  with bound built show ?thesis unfolding name by blast
qed

text \<open>
  C5 as the specification states it fails for a negative bound: with \<open>max_depth = -1\<close>
  the root is cut off at once and returned as a leaf at depth 0, above the bound.
\<close>

theorem negative_bound_counterexample:
  "prerequisite_tree
     \<lparr>db_courses =
        [\<lparr>code = ''CMPUT 174'', title = ''Foundations I'', credits = 3, level = ''100'',
          subject = ''CMPUT'', typically_offered = [], prerequisite_formula = JNull\<rparr>],
      db_programs = []\<rparr>
     ''CMPUT 174'' (- 1)
     = Inr (PrerequisiteNode ''CMPUT 174'' ''Foundations I'' 0 [] JNull) \<and>
   \<not> node_depth (PrerequisiteNode ''CMPUT 174'' ''Foundations I'' 0 [] JNull) \<le> - 1"
  by code_simp

text \<open>
  C6. A course that is absent from the catalog is an error only for the subject of a
  call: \<open>check_prerequisites\<close>, and \<open>get_prerequisite_tree\<close> at the root, raise
  ``course not found'' for it and return nothing. In the candidate loop of
  \<open>get_next_available_courses\<close> a candidate whose prerequisite check raises ``course not
  found'' is recorded with \<open>prerequisites_met = False\<close>, and the loop that builds the
  children of a tree node skips a code that is absent.
\<close>

theorem not_found_only_for_the_subject:
  "(find_course db (JStr c) = None \<longrightarrow>
      check_prerequisites c completed db = Inl (CourseNotFound (JStr c)) \<and>
      prerequisite_tree db c max_depth = Inl (CourseNotFound (JStr c))) \<and>
   (check_prerequisites (code cand) completed db = Inl (CourseNotFound x) \<longrightarrow>
      (\<exists>a. available_course_of db program completed cset cand = Inr a \<and> \<not> prerequisites_met a)) \<and>
   (find_course db p = None \<longrightarrow>
      tree_loop db (p # rest) d m visited nodes = tree_loop db rest d m visited nodes)"
proof (intro conjI impI)
  assume "find_course db (JStr c) = None"
  then show "check_prerequisites c completed db = Inl (CourseNotFound (JStr c))"
    by (rule check_prerequisites_not_found)
next
  assume "find_course db (JStr c) = None"
  then show "prerequisite_tree db c max_depth = Inl (CourseNotFound (JStr c))"
    unfolding prerequisite_tree_def by (rule tree_not_found)
next
  assume "check_prerequisites (code cand) completed db = Inl (CourseNotFound x)"
  then show "\<exists>a. available_course_of db program completed cset cand = Inr a \<and> \<not> prerequisites_met a"
    by (rule available_course_not_found)
next
  assume "find_course db p = None"
  then show "tree_loop db (p # rest) d m visited nodes = tree_loop db rest d m visited nodes"
    by (rule tree_loop_skips)
qed

text \<open>
  The theorem at a catalog that holds \<^verbatim>\<open>CMPUT 174\<close> alone, for the absent course
  \<^verbatim>\<open>CMPUT 999\<close>.
\<close>

theorem not_found_only_for_the_subject_witness:
  "check_prerequisites ''CMPUT 999'' [''CMPUT 174'']
     \<lparr>db_courses =
        [\<lparr>code = ''CMPUT 174'', title = ''Foundations I'', credits = 3, level = ''100'',
          subject = ''CMPUT'', typically_offered = [], prerequisite_formula = JNull\<rparr>],
      db_programs = []\<rparr>
     = Inl (CourseNotFound (JStr ''CMPUT 999'')) \<and>
   prerequisite_tree
     \<lparr>db_courses =
        [\<lparr>code = ''CMPUT 174'', title = ''Foundations I'', credits = 3, level = ''100'',
          subject = ''CMPUT'', typically_offered = [], prerequisite_formula = JNull\<rparr>],
      db_programs = []\<rparr>
     ''CMPUT 999'' 5 = Inl (CourseNotFound (JStr ''CMPUT 999'')) \<and>
   (\<exists>a. available_course_of
     \<lparr>db_courses =
        [\<lparr>code = ''CMPUT 174'', title = ''Foundations I'', credits = 3, level = ''100'',
          subject = ''CMPUT'', typically_offered = [], prerequisite_formula = JNull\<rparr>],
      db_programs = []\<rparr>
     \<lparr>prog_code = ''honors-cs'', prog_name = ''Honors CS'', total_credits = 120,
       program_requirements = [], special_rules = JNull\<rparr>
     [''CMPUT 174''] {''CMPUT 174''}
     \<lparr>code = ''CMPUT 999'', title = ''Ghost'', credits = 3, level = ''400'',
       subject = ''CMPUT'', typically_offered = [], prerequisite_formula = JNull\<rparr> = Inr a \<and>
     \<not> prerequisites_met a) \<and>
   tree_loop
     \<lparr>db_courses =
        [\<lparr>code = ''CMPUT 174'', title = ''Foundations I'', credits = 3, level = ''100'',
          subject = ''CMPUT'', typically_offered = [], prerequisite_formula = JNull\<rparr>],
      db_programs = []\<rparr>
     [JStr ''CMPUT 999'', JStr ''CMPUT 174''] 1 5 {JStr ''CMPUT 175''} []
   = tree_loop
     \<lparr>db_courses =
        [\<lparr>code = ''CMPUT 174'', title = ''Foundations I'', credits = 3, level = ''100'',
          subject = ''CMPUT'', typically_offered = [], prerequisite_formula = JNull\<rparr>],
      db_programs = []\<rparr>
     [JStr ''CMPUT 174''] 1 5 {JStr ''CMPUT 175''} []"
proof -
  let ?db = "\<lparr>db_courses =
        [\<lparr>code = ''CMPUT 174'', title = ''Foundations I'', credits = 3, level = ''100'',
          subject = ''CMPUT'', typically_offered = [], prerequisite_formula = JNull\<rparr>],
      db_programs = []\<rparr>"
  let ?ghost = "\<lparr>code = ''CMPUT 999'', title = ''Ghost'', credits = 3, level = ''400'',
       subject = ''CMPUT'', typically_offered = [], prerequisite_formula = JNull\<rparr>"
  have absent: "find_course ?db (JStr ''CMPUT 999'') = None" by code_simp
  have raised: "check_prerequisites (code ?ghost) [''CMPUT 174''] ?db
      = Inl (CourseNotFound (JStr ''CMPUT 999''))" by code_simp
  from not_found_only_for_the_subject
    [where db = ?db and c = "''CMPUT 999''" and completed = "[''CMPUT 174'']" and max_depth = 5
       and cand = ?ghost and x = "JStr ''CMPUT 999''" and p = "JStr ''CMPUT 999''"
       and rest = "[JStr ''CMPUT 174'']" and d = 1 and m = 5 and visited = "{JStr ''CMPUT 175''}"
       and nodes = "[]" and cset = "{''CMPUT 174''}"
       and program = "\<lparr>prog_code = ''honors-cs'', prog_name = ''Honors CS'', total_credits = 120,
         program_requirements = [], special_rules = JNull\<rparr>"]
    absent raised
  show ?thesis by blast
qed

section \<open>Claims about the recommender\<close>

lemma satisfied_kinds:
  assumes "course_satisfies_requirement c r cs"
    and "requirement_type r \<noteq> ''REQUIRED''" and "requirement_type r \<noteq> ''CHOICE''"
  shows "requirement_type r = ''LEVEL_REQUIREMENT'' \<or> requirement_type r = ''ELECTIVE''"
  using assms by (auto simp: course_satisfies_requirement_def Let_def split: if_splits)

lemma score_loop_sum:
  "snd (score_loop reqs c cs (sat, sc)) =
     sc + 10 * real (satisfied_count (\<lambda>t. t = ''REQUIRED'') reqs c cs)
        + 5 * real (satisfied_count (\<lambda>t. t = ''CHOICE'') reqs c cs)
        + 2 * real (satisfied_count (\<lambda>t. t = ''LEVEL_REQUIREMENT'' \<or> t = ''ELECTIVE'') reqs c cs)"
proof (induction reqs arbitrary: sat sc)
  case Nil
  show ?case by (simp add: satisfied_count_def)
next
  case (Cons r reqs)
  show ?case
  proof (cases "course_satisfies_requirement c r cs")
    case False
    with Cons.IH [of sat sc] show ?thesis by (simp add: satisfied_count_def)
  next
    case True
    consider (required) "requirement_type r = ''REQUIRED''"
      | (choice) "requirement_type r \<noteq> ''REQUIRED''" "requirement_type r = ''CHOICE''"
      | (other) "requirement_type r \<noteq> ''REQUIRED''" "requirement_type r \<noteq> ''CHOICE''"
      by blast
    then show ?thesis
    proof cases
      case required
      with True Cons.IH [of "sat @ [req_id r]" "sc + 10"] show ?thesis
        by (simp add: satisfied_count_def)
    next
      case choice
      with True Cons.IH [of "sat @ [req_id r]" "sc + 5"] show ?thesis
        by (simp add: satisfied_count_def)
    next
      case other
      with satisfied_kinds [OF True] have "requirement_type r = ''LEVEL_REQUIREMENT'' \<or>
          requirement_type r = ''ELECTIVE''" by blast
      with other True Cons.IH [of "sat @ [req_id r]" "sc + 2"] show ?thesis
        by (auto simp: satisfied_count_def)
    qed
  qed
qed

lemma available_course_score:
  assumes "available_course_of db program completed cs c = Inr a"
  shows "ac_course_code a = code c \<and>
         priority_score a = claimed_priority_score (program_requirements program) c cs (prerequisites_met a)"
proof -
  from assms obtain met where met: "try_prerequisites (check_prerequisites (code c) completed db) = Inr met"
    by (cases "try_prerequisites (check_prerequisites (code c) completed db)")
       (simp_all add: available_course_of_def)
  let ?looped = "score_loop (program_requirements program) c cs ([], 0)"
  from assms met have a: "a = \<lparr>ac_course_code = code c, ac_title = title c, ac_credits = credits c,
      ac_level = level c, prerequisites_met = met, satisfies_requirements = fst ?looped,
      priority_score = (if met then snd ?looped + 3 else snd ?looped)
         + real_of_int (600 - level_value c) / 100,
      ac_typically_offered = typically_offered c\<rparr>"
    by (simp add: available_course_of_def Let_def)
  have "snd ?looped =
      0 + 10 * real (satisfied_count (\<lambda>t. t = ''REQUIRED'') (program_requirements program) c cs)
        + 5 * real (satisfied_count (\<lambda>t. t = ''CHOICE'') (program_requirements program) c cs)
        + 2 * real (satisfied_count (\<lambda>t. t = ''LEVEL_REQUIREMENT'' \<or> t = ''ELECTIVE'')
                      (program_requirements program) c cs)"
    by (rule score_loop_sum)
  with a show ?thesis
    by (simp add: claimed_priority_score_def level_value_def)
qed

lemma candidates_loop_members:
  "candidates_loop cands db program completed cs acc = Inr av \<Longrightarrow> a \<in> set av \<Longrightarrow>
   a \<in> set acc \<or> (\<exists>c \<in> set cands. available_course_of db program completed cs c = Inr a)"
proof (induction cands arbitrary: acc)
  case Nil
  then show ?case by simp
next
  case (Cons c cands)
  from Cons.prems(1) obtain b where b: "available_course_of db program completed cs c = Inr b"
    and rest: "candidates_loop cands db program completed cs (acc @ [b]) = Inr av"
    by (cases "available_course_of db program completed cs c") simp_all
  from Cons.IH [OF rest Cons.prems(2)] b show ?case by auto
qed

lemma sort_by_priority_sorted:
  "sorted_wrt (\<lambda>a b. priority_score a \<ge> priority_score b) (sort_by_priority av)"
proof -
  have "sorted (map (\<lambda>x. - priority_score x) (sort_by_priority av))"
    unfolding sort_by_priority_def by (rule sorted_sort_key)
  then show ?thesis by (simp add: sorted_map)
qed

lemma sort_by_priority_set: "set (sort_by_priority av) = set av"
  by (simp add: sort_by_priority_def)

text \<open>
  C8. In the list that \<open>get_next_available_courses\<close> returns, every entry is built from
  a course of the catalog, and its priority score is the sum of 10 for each satisfied
  REQUIRED requirement, 5 for each satisfied CHOICE requirement, 2 for each other
  satisfied requirement, 3 if its prerequisites are met, and \<open>(600 - level) / 100\<close>
  with the course's numeric level, 0 for a level that is no number; the list is in
  descending order of priority score. The scores are real numbers here.
\<close>

theorem priority_score_and_order:
  assumes "get_next_available_courses pcode completed db = Inr available"
  shows "sorted_wrt (\<lambda>a b. priority_score a \<ge> priority_score b) available \<and>
         (\<forall>a \<in> set available. \<exists>program c.
            find_program db pcode = Some program \<and> c \<in> set (db_courses db) \<and>
            ac_course_code a = code c \<and>
            priority_score a =
              claimed_priority_score (program_requirements program) c (normalize_codes completed)
                (prerequisites_met a))"
proof -
  from assms obtain program where p: "find_program db pcode = Some program"
    by (cases "find_program db pcode") (simp_all add: get_next_available_courses_def)
  let ?cs = "normalize_codes completed"
  let ?codes = "level_courses_loop (program_requirements program) db
      (listed_loop (program_requirements program) {}) - ?cs"
  let ?cands = "filter (\<lambda>c. code c \<in> ?codes) (db_courses db)"
  show ?thesis
  proof (cases "?codes = {}")
    case True
    with assms p have "available = []" by (simp add: get_next_available_courses_def Let_def)
    then show ?thesis by simp
  next
    case False
    with assms p obtain av where loop: "candidates_loop ?cands db program completed ?cs [] = Inr av"
      and sorted: "available = sort_by_priority av"
      by (cases "candidates_loop ?cands db program completed ?cs []")
         (simp_all add: get_next_available_courses_def Let_def)
    have "\<exists>program c. find_program db pcode = Some program \<and> c \<in> set (db_courses db) \<and>
            ac_course_code a = code c \<and>
            priority_score a =
              claimed_priority_score (program_requirements program) c ?cs (prerequisites_met a)"
      if "a \<in> set available" for a
    proof -
      from that sorted have "a \<in> set av" by (simp add: sort_by_priority_set)
      with candidates_loop_members [OF loop] obtain c where c: "c \<in> set ?cands"
        and a: "available_course_of db program completed ?cs c = Inr a" by auto
      from c have "c \<in> set (db_courses db)" by simp
      with available_course_score [OF a] p show ?thesis by blast
    qed
    with sorted sort_by_priority_sorted [of av] show ?thesis by blast
  qed
qed

text \<open>
  The theorem at a program with a REQUIRED and a LEVEL\_REQUIREMENT, a catalog of three
  courses and \<^verbatim>\<open>cmput 174\<close> completed: \<^verbatim>\<open>CMPUT 175\<close> scores 10 + 3 + 5 = 18 and comes
  before \<^verbatim>\<open>CMPUT 301\<close>, which scores 2 + 3 + 3 = 8.
\<close>

theorem priority_score_and_order_witness:
  "get_next_available_courses ''honors-cs'' [''cmput 174'']
     \<lparr>db_courses = [
        \<lparr>code = ''CMPUT 174'', title = ''Foundations I'', credits = 3, level = ''100'',
          subject = ''CMPUT'', typically_offered = [''Fall''], prerequisite_formula = JNull\<rparr>,
        \<lparr>code = ''CMPUT 301'', title = ''HCI'', credits = 3, level = ''300'',
          subject = ''CMPUT'', typically_offered = [], prerequisite_formula = JNull\<rparr>,
        \<lparr>code = ''CMPUT 175'', title = ''Foundations II'', credits = 3, level = ''100'',
          subject = ''CMPUT'', typically_offered = [''Winter''],
          prerequisite_formula = JObj [(''type'', JStr ''COURSE''), (''code'', JStr ''CMPUT 174'')]\<rparr>],
      db_programs = [
        \<lparr>prog_code = ''honors-cs'', prog_name = ''Honors CS'', total_credits = 120,
          program_requirements = [
            \<lparr>req_id = ''r1'', req_name = ''Core'', requirement_type = ''REQUIRED'',
              courses = [''CMPUT 174'', ''CMPUT 175''], credits_needed = None, choose_count = None,
              level_filter = [], subject_filter = None, order_index = 0\<rparr>,
            \<lparr>req_id = ''r2'', req_name = ''Senior'', requirement_type = ''LEVEL_REQUIREMENT'',
              courses = [], credits_needed = Some 3, choose_count = None,
              level_filter = [''300''], subject_filter = Some ''CMPUT'', order_index = 1\<rparr>],
          special_rules = JNull\<rparr>]\<rparr>
   = Inr [
      \<lparr>ac_course_code = ''CMPUT 175'', ac_title = ''Foundations II'', ac_credits = 3,
        ac_level = ''100'', prerequisites_met = True, satisfies_requirements = [''r1''],
        priority_score = 18, ac_typically_offered = [''Winter'']\<rparr>,
      \<lparr>ac_course_code = ''CMPUT 301'', ac_title = ''HCI'', ac_credits = 3,
        ac_level = ''300'', prerequisites_met = True, satisfies_requirements = [''r2''],
        priority_score = 8, ac_typically_offered = []\<rparr>] \<and>
   sorted_wrt (\<lambda>a b. priority_score a \<ge> priority_score b)
     [
      \<lparr>ac_course_code = ''CMPUT 175'', ac_title = ''Foundations II'', ac_credits = 3,
        ac_level = ''100'', prerequisites_met = True, satisfies_requirements = [''r1''],
        priority_score = 18, ac_typically_offered = [''Winter'']\<rparr>,
      \<lparr>ac_course_code = ''CMPUT 301'', ac_title = ''HCI'', ac_credits = 3,
        ac_level = ''300'', prerequisites_met = True, satisfies_requirements = [''r2''],
        priority_score = 8, ac_typically_offered = []\<rparr>]"
proof -
  let ?db = "\<lparr>db_courses = [
        \<lparr>code = ''CMPUT 174'', title = ''Foundations I'', credits = 3, level = ''100'',
          subject = ''CMPUT'', typically_offered = [''Fall''], prerequisite_formula = JNull\<rparr>,
        \<lparr>code = ''CMPUT 301'', title = ''HCI'', credits = 3, level = ''300'',
          subject = ''CMPUT'', typically_offered = [], prerequisite_formula = JNull\<rparr>,
        \<lparr>code = ''CMPUT 175'', title = ''Foundations II'', credits = 3, level = ''100'',
          subject = ''CMPUT'', typically_offered = [''Winter''],
          prerequisite_formula = JObj [(''type'', JStr ''COURSE''), (''code'', JStr ''CMPUT 174'')]\<rparr>],
      db_programs = [
        \<lparr>prog_code = ''honors-cs'', prog_name = ''Honors CS'', total_credits = 120,
          program_requirements = [
            \<lparr>req_id = ''r1'', req_name = ''Core'', requirement_type = ''REQUIRED'',
              courses = [''CMPUT 174'', ''CMPUT 175''], credits_needed = None, choose_count = None,
              level_filter = [], subject_filter = None, order_index = 0\<rparr>,
            \<lparr>req_id = ''r2'', req_name = ''Senior'', requirement_type = ''LEVEL_REQUIREMENT'',
              courses = [], credits_needed = Some 3, choose_count = None,
              level_filter = [''300''], subject_filter = Some ''CMPUT'', order_index = 1\<rparr>],
          special_rules = JNull\<rparr>]\<rparr>"
  let ?av = "[
      \<lparr>ac_course_code = ''CMPUT 175'', ac_title = ''Foundations II'', ac_credits = 3,
        ac_level = ''100'', prerequisites_met = True, satisfies_requirements = [''r1''],
        priority_score = 18, ac_typically_offered = [''Winter'']\<rparr>,
      \<lparr>ac_course_code = ''CMPUT 301'', ac_title = ''HCI'', ac_credits = 3,
        ac_level = ''300'', prerequisites_met = True, satisfies_requirements = [''r2''],
        priority_score = 8, ac_typically_offered = []\<rparr>]"
  have ran: "get_next_available_courses ''honors-cs'' [''cmput 174''] ?db = Inr ?av"
    by code_simp
  from ran priority_score_and_order [OF ran] show ?thesis by blast
qed

section \<open>Claims about special rules\<close>















end
